theory Spec2Isabelle
  imports Complex_Main
begin

section \<open>Tensors\<close>

text \<open>
  The source computes on TensorFlow tensors. A tensor is modelled by its static shape and
  its elements in row-major order; the elements are real numbers (rounding, infinities and
  NaN of the floating-point types have no counterpart here). A tensor is well formed when
  it has as many elements as its shape says.
\<close>

record tensor =
  shape :: "nat list"
  dat :: "real list"

definition wf_tensor :: "tensor \<Rightarrow> bool" where
  "wf_tensor t = (length (dat t) = prod_list (shape t))"

text \<open>
  The exceptions of \<^verbatim>\<open>bounds.py\<close>, the \<^verbatim>\<open>TypeError\<close> of a function called with the
  wrong number of arguments, the \<^verbatim>\<open>AttributeError\<close> of reading an attribute that is not
  set, and one more value for every rejection of its operands by a
  TensorFlow or Sonnet operation (incompatible shapes, a squeeze of an axis that is not 1,
  an input of too small a rank).
\<close>

datatype error =
    NotImplementedError string
  | ValueError string
  | AssertionError
  | TypeError
  | AttributeError
  | TFShapeError

subsection \<open>Elementwise operations and broadcasting\<close>

definition tmap :: "(real \<Rightarrow> real) \<Rightarrow> tensor \<Rightarrow> tensor" where
  "tmap f t = \<lparr>shape = shape t, dat = map f (dat t)\<rparr>"

text \<open>
  \<^verbatim>\<open>tf.abs\<close>, unary minus, \<^verbatim>\<open>tf.rsqrt\<close>, \<^verbatim>\<open>x / 2.\<close> and \<^verbatim>\<open>x + epsilon\<close> with a
  Python float. \<^verbatim>\<open>tf.rsqrt\<close> is a real number on positive arguments only; at zero and
  below TensorFlow yields an infinity or NaN, and the value of \<open>trsqrt\<close> there means
  nothing.
\<close>

definition tabs :: "tensor \<Rightarrow> tensor" where
  "tabs t = tmap abs t"

definition tneg :: "tensor \<Rightarrow> tensor" where
  "tneg t = tmap uminus t"

definition trsqrt :: "tensor \<Rightarrow> tensor" where
  "trsqrt t = tmap (\<lambda>x. 1 / sqrt x) t"

definition thalf :: "tensor \<Rightarrow> tensor" where
  "thalf t = tmap (\<lambda>x. x / 2) t"

definition tadd_scalar :: "tensor \<Rightarrow> real \<Rightarrow> tensor" where
  "tadd_scalar t e = tmap (\<lambda>x. x + e) t"

text \<open>
  The shape of a broadcast, computed on the reversed shapes: trailing axes are aligned, an
  axis of size 1 stretches, any other mismatch is rejected.
\<close>

fun bshape_rev :: "nat list \<Rightarrow> nat list \<Rightarrow> nat list option" where
  "bshape_rev [] ys = Some ys"
| "bshape_rev xs [] = Some xs"
| "bshape_rev (x # xs) (y # ys) =
     (if x = y \<or> y = 1 then map_option ((#) x) (bshape_rev xs ys)
      else if x = 1 then map_option ((#) y) (bshape_rev xs ys)
      else None)"

definition broadcast_shape :: "nat list \<Rightarrow> nat list \<Rightarrow> nat list option" where
  "broadcast_shape s t = map_option rev (bshape_rev (rev s) (rev t))"

text \<open>
  \<open>expand ds ts xs\<close> stretches the elements \<open>xs\<close> of shape \<open>ds\<close> to the shape \<open>ts\<close> of the
  same rank: an axis of equal size is copied block by block, an axis of size 1 is
  repeated.
\<close>

fun expand :: "nat list \<Rightarrow> nat list \<Rightarrow> 'a list \<Rightarrow> 'a list" where
  "expand (d # ds) (t # ts) xs =
     (if d = t
      then concat (map (\<lambda>i. expand ds ts (take (prod_list ds) (drop (i * prod_list ds) xs)))
                       [0..<d])
      else concat (replicate t (expand ds ts xs)))"
| "expand _ _ xs = xs"

definition bcast :: "nat list \<Rightarrow> nat list \<Rightarrow> 'a list \<Rightarrow> 'a list" where
  "bcast src tgt xs = expand (replicate (length tgt - length src) 1 @ src) tgt xs"

definition tbin :: "(real \<Rightarrow> real \<Rightarrow> real) \<Rightarrow> tensor \<Rightarrow> tensor \<Rightarrow> error + tensor" where
  "tbin f a b =
     (case broadcast_shape (shape a) (shape b) of
        None \<Rightarrow> Inl TFShapeError
      | Some s \<Rightarrow>
          Inr \<lparr>shape = s,
               dat = map2 f (bcast (shape a) s (dat a)) (bcast (shape b) s (dat b))\<rparr>)"

definition tadd :: "tensor \<Rightarrow> tensor \<Rightarrow> error + tensor" where
  "tadd = tbin (+)"

definition tsub :: "tensor \<Rightarrow> tensor \<Rightarrow> error + tensor" where
  "tsub = tbin (-)"

definition tmul :: "tensor \<Rightarrow> tensor \<Rightarrow> error + tensor" where
  "tmul = tbin (*)"

subsection \<open>Matrix product, convolution, squeeze, flatten\<close>

text \<open>An element read by its row-major position; positions outside read as 0.\<close>

definition el :: "tensor \<Rightarrow> nat \<Rightarrow> real" where
  "el t i = (if i < length (dat t) then dat t ! i else 0)"

text \<open>The elements of an \<open>n \<times> m\<close> matrix given by a function of row and column.\<close>

definition tab :: "nat \<Rightarrow> nat \<Rightarrow> (nat \<Rightarrow> nat \<Rightarrow> 'a) \<Rightarrow> 'a list" where
  "tab n m f = concat (map (\<lambda>i. map (f i) [0..<m]) [0..<n])"

text \<open>\<^verbatim>\<open>tf.matmul\<close> of an \<open>n \<times> k\<close> by a \<open>k \<times> m\<close> matrix.\<close>

definition matmul :: "tensor \<Rightarrow> tensor \<Rightarrow> error + tensor" where
  "matmul a b =
     (case (shape a, shape b) of
        ([n, k], [k', m]) \<Rightarrow>
          if k = k'
          then Inr \<lparr>shape = [n, m],
                    dat = tab n m (\<lambda>i j. \<Sum>q\<leftarrow>[0..<k]. el a (i * k + q) * el b (q * m + j))\<rparr>
          else Inl TFShapeError
      | _ \<Rightarrow> Inl TFShapeError)"

datatype padding = SAME | VALID

text \<open>
  The output size of one spatial axis of a convolution and the padding put before it:
  \<open>conv_out p i k s\<close> for input size \<open>i\<close>, kernel size \<open>k\<close> and stride \<open>s\<close>. With
  \<open>VALID\<close> the kernel must fit into the input (shape inference rejects the negative
  size \<open>i - k\<close>), and the size is \<open>(i - k + s) div s\<close>; with \<open>SAME\<close> it is \<open>i / s\<close>
  rounded up.
\<close>

definition conv_out :: "padding \<Rightarrow> nat \<Rightarrow> nat \<Rightarrow> nat \<Rightarrow> nat option" where
  "conv_out p i k s =
     (case p of
        SAME \<Rightarrow> Some ((i + s - 1) div s)
      | VALID \<Rightarrow> if k \<le> i then Some ((i - k + s) div s) else None)"

definition conv_pad :: "padding \<Rightarrow> nat \<Rightarrow> nat \<Rightarrow> nat \<Rightarrow> nat" where
  "conv_pad p i k s =
     (case p of
        SAME \<Rightarrow> (((i + s - 1) div s - 1) * s + k - i) div 2
      | VALID \<Rightarrow> 0)"

text \<open>
  \<^verbatim>\<open>tf.nn.convolution\<close> on a batch of images \<open>[N, H, W, C]\<close> with a kernel
  \<open>[KH, KW, C, CO]\<close> and strides \<open>[sh, sw]\<close>; the padded border reads as 0.
\<close>

definition conv_at ::
  "tensor \<Rightarrow> tensor \<Rightarrow> nat \<Rightarrow> nat \<Rightarrow> nat \<Rightarrow> nat \<Rightarrow> nat \<Rightarrow> nat \<Rightarrow> nat \<Rightarrow> nat \<Rightarrow> nat \<Rightarrow> nat \<Rightarrow>
   nat \<Rightarrow> nat \<Rightarrow> nat \<Rightarrow> nat \<Rightarrow> real" where
  "conv_at x f H W C KH KW CO sh sw pt pl n oh ow co =
     sum_list (map (\<lambda>kh. sum_list (map (\<lambda>kw. sum_list (map (\<lambda>ci.
       (if pt \<le> oh * sh + kh \<and> oh * sh + kh - pt < H \<and>
           pl \<le> ow * sw + kw \<and> ow * sw + kw - pl < W
        then el x (((n * H + (oh * sh + kh - pt)) * W + (ow * sw + kw - pl)) * C + ci)
        else 0)
       * el f (((kh * KW + kw) * C + ci) * CO + co))
       [0..<C])) [0..<KW])) [0..<KH])"

definition convolution :: "tensor \<Rightarrow> tensor \<Rightarrow> padding \<Rightarrow> nat list \<Rightarrow> error + tensor" where
  "convolution x f p strides =
     (case (shape x, shape f, strides) of
        ([N, H, W, C], [KH, KW, C', CO], [sh, sw]) \<Rightarrow>
          if C = C' \<and> 0 < sh \<and> 0 < sw
          then (case (conv_out p H KH sh, conv_out p W KW sw) of
                  (Some OH, Some OW) \<Rightarrow>
                    Inr \<lparr>shape = [N, OH, OW, CO],
                         dat = concat (map (\<lambda>n. concat (map (\<lambda>oh. concat (map (\<lambda>ow.
                                 map (\<lambda>co. conv_at x f H W C KH KW CO sh sw
                                              (conv_pad p H KH sh) (conv_pad p W KW sw)
                                              n oh ow co)
                                 [0..<CO]) [0..<OW])) [0..<OH])) [0..<N])\<rparr>
                | _ \<Rightarrow> Inl TFShapeError)
          else Inl TFShapeError
      | _ \<Rightarrow> Inl TFShapeError)"

text \<open>\<^verbatim>\<open>tf.squeeze(b, axis=0)\<close>: the leading axis must exist and have size 1.\<close>

definition squeeze0 :: "tensor \<Rightarrow> error + tensor" where
  "squeeze0 t =
     (case shape t of
        [] \<Rightarrow> Inl TFShapeError
      | d # ds \<Rightarrow> if d = 1 then Inr \<lparr>shape = ds, dat = dat t\<rparr> else Inl TFShapeError)"

text \<open>\<^verbatim>\<open>snt.BatchFlatten()\<close>: the leading axis is kept, the others are merged into one.\<close>

definition BatchFlatten :: "tensor \<Rightarrow> error + tensor" where
  "BatchFlatten t =
     (case shape t of
        [] \<Rightarrow> Inl TFShapeError
      | d # ds \<Rightarrow> Inr \<lparr>shape = [d, prod_list ds], dat = dat t\<rparr>)"

text \<open>A Python tuple \<open>(t,)\<close> where a tensor is expected is packed into a tensor with a new
  leading axis of size 1.\<close>

definition pack1 :: "tensor \<Rightarrow> tensor" where
  "pack1 t = \<lparr>shape = 1 # shape t, dat = dat t\<rparr>"

section \<open>Interval bounds\<close>

text \<open>
  \<^verbatim>\<open>lower\<close> and \<^verbatim>\<open>upper\<close> of an \<^verbatim>\<open>IntervalBounds\<close> each hold a tensor or a tuple of
  tensors; nothing ties the two fields together, so they are modelled separately.
\<close>

datatype bval = Tensor tensor | Tuple "tensor list"

fun is_tuple :: "bval \<Rightarrow> bool" where
  "is_tuple (Tuple _) = True"
| "is_tuple (Tensor _) = False"

record IntervalBounds =
  lower :: bval
  upper :: bval

text \<open>
  \<^verbatim>\<open>_ensure_singleton\<close> raises when either field is a tuple. On success the model hands
  back the two tensors, which the callers read next.
\<close>

definition ensure_singleton :: "IntervalBounds \<Rightarrow> error + (tensor \<times> tensor)" where
  "ensure_singleton self =
     (case (lower self, upper self) of
        (Tensor l, Tensor u) \<Rightarrow> Inr (l, u)
      | _ \<Rightarrow> Inl (ValueError ''Cannot proceed with multiple inputs.''))"

text \<open>
  The argument of \<^verbatim>\<open>combine_with\<close> is any object: an \<^verbatim>\<open>IntervalBounds\<close>, or something
  else, of which only its string form is used.
\<close>

datatype bounds_arg = Interval IntervalBounds | NotInterval string

text \<open>Python's \<^verbatim>\<open>x + (t,)\<close>: a tuple is extended; a tensor is added to the packed tuple.\<close>

fun plus_tuple1 :: "bval \<Rightarrow> tensor \<Rightarrow> error + bval" where
  "plus_tuple1 (Tuple ts) t = Inr (Tuple (ts @ [t]))"
| "plus_tuple1 (Tensor a) t = map_sum id Tensor (tadd a (pack1 t))"

definition combine_with :: "IntervalBounds \<Rightarrow> bounds_arg \<Rightarrow> error + IntervalBounds" where
  "combine_with self bounds =
     (case bounds of
        NotInterval r \<Rightarrow> Inl (NotImplementedError (''Cannot combine IntervalBounds with '' @ r))
      | Interval other \<Rightarrow>
          (case ensure_singleton other of
             Inl e \<Rightarrow> Inl e
           | Inr (bl, bu) \<Rightarrow>
               if \<not> is_tuple (lower self)
               then (case ensure_singleton self of
                       Inl e \<Rightarrow> Inl e
                     | Inr (l, u) \<Rightarrow> Inr \<lparr>lower = Tuple [l, bl], upper = Tuple [u, bu]\<rparr>)
               else (case plus_tuple1 (lower self) bl of
                       Inl e \<Rightarrow> Inl e
                     | Inr lo \<Rightarrow>
                         (case plus_tuple1 (upper self) bu of
                            Inl e \<Rightarrow> Inl e
                          | Inr up \<Rightarrow> Inr \<lparr>lower = lo, upper = up\<rparr>))))"

text \<open>The last two lines shared by \<^verbatim>\<open>_linear\<close>, \<^verbatim>\<open>_conv2d\<close> and \<^verbatim>\<open>_batch_norm\<close>:
  \<^verbatim>\<open>IntervalBounds(c - r, c + r)\<close>.\<close>

definition center_radius :: "tensor \<Rightarrow> tensor \<Rightarrow> error + IntervalBounds" where
  "center_radius c r =
     (case tsub c r of
        Inl e \<Rightarrow> Inl e
      | Inr lo \<Rightarrow>
          (case tadd c r of
             Inl e \<Rightarrow> Inl e
           | Inr up \<Rightarrow> Inr \<lparr>lower = Tensor lo, upper = Tensor up\<rparr>))"

text \<open>The optional bias of a layer: \<^verbatim>\<open>if b is not None: c = c + b\<close>.\<close>

definition add_bias :: "tensor \<Rightarrow> tensor option \<Rightarrow> error + tensor" where
  "add_bias c b = (case b of None \<Rightarrow> Inr c | Some b' \<Rightarrow> tadd c b')"

definition IntervalBounds_linear ::
  "IntervalBounds \<Rightarrow> tensor \<Rightarrow> tensor option \<Rightarrow> error + IntervalBounds" where
  "IntervalBounds_linear self w b =
     (case ensure_singleton self of
        Inl e \<Rightarrow> Inl e
      | Inr (l, u) \<Rightarrow>
          (case tadd l u of Inl e \<Rightarrow> Inl e | Inr s \<Rightarrow>
          (case tsub u l of Inl e \<Rightarrow> Inl e | Inr d \<Rightarrow>
          (case matmul (thalf s) w of Inl e \<Rightarrow> Inl e | Inr c \<Rightarrow>
          (case add_bias c b of Inl e \<Rightarrow> Inl e | Inr c' \<Rightarrow>
          (case matmul (thalf d) (tabs w) of Inl e \<Rightarrow> Inl e | Inr r \<Rightarrow>
             center_radius c' r))))))"

definition IntervalBounds_conv2d ::
  "IntervalBounds \<Rightarrow> tensor \<Rightarrow> tensor option \<Rightarrow> padding \<Rightarrow> nat list \<Rightarrow> error + IntervalBounds" where
  "IntervalBounds_conv2d self w b pad strides =
     (case ensure_singleton self of
        Inl e \<Rightarrow> Inl e
      | Inr (l, u) \<Rightarrow>
          (case tadd l u of Inl e \<Rightarrow> Inl e | Inr s \<Rightarrow>
          (case tsub u l of Inl e \<Rightarrow> Inl e | Inr d \<Rightarrow>
          (case convolution (thalf s) w pad strides of Inl e \<Rightarrow> Inl e | Inr c \<Rightarrow>
          (case add_bias c b of Inl e \<Rightarrow> Inl e | Inr c' \<Rightarrow>
          (case convolution (thalf d) (tabs w) pad strides of Inl e \<Rightarrow> Inl e | Inr r \<Rightarrow>
             center_radius c' r))))))"

text \<open>
  The wrapped module of a \<^verbatim>\<open>MonotonicWrapper\<close> is a Python function: it has a name and
  is called with positional arguments. It may raise.
\<close>

record fn_module =
  fn_name :: string
  fn_call :: "tensor list \<Rightarrow> error + tensor"

definition IntervalBounds_monotonic_fn ::
  "IntervalBounds \<Rightarrow> fn_module \<Rightarrow> error + IntervalBounds" where
  "IntervalBounds_monotonic_fn self fn =
     (case lower self of
        Tuple ls \<Rightarrow>
          (case upper self of
             Tensor _ \<Rightarrow> Inl AssertionError
           | Tuple us \<Rightarrow>
               (case fn_call fn ls of Inl e \<Rightarrow> Inl e | Inr lo \<Rightarrow>
               (case fn_call fn us of Inl e \<Rightarrow> Inl e | Inr up \<Rightarrow>
                  Inr \<lparr>lower = Tensor lo, upper = Tensor up\<rparr>)))
      | Tensor _ \<Rightarrow>
          (case ensure_singleton self of
             Inl e \<Rightarrow> Inl e
           | Inr (l, u) \<Rightarrow>
               (case fn_call fn [l] of Inl e \<Rightarrow> Inl e | Inr lo \<Rightarrow>
               (case fn_call fn [u] of Inl e \<Rightarrow> Inl e | Inr up \<Rightarrow>
                  Inr \<lparr>lower = Tensor lo, upper = Tensor up\<rparr>))))"

text \<open>
  Lines 155 to 162 of \<^verbatim>\<open>_batch_norm\<close>: the elementwise multiplier and the elementwise
  bias, before the squeeze.
\<close>

definition bn_multiplier :: "tensor \<Rightarrow> tensor option \<Rightarrow> real \<Rightarrow> error + tensor" where
  "bn_multiplier variance scale epsilon =
     (case scale of
        None \<Rightarrow> Inr (trsqrt (tadd_scalar variance epsilon))
      | Some s \<Rightarrow> tmul (trsqrt (tadd_scalar variance epsilon)) s)"

definition bn_bias :: "tensor \<Rightarrow> tensor \<Rightarrow> tensor option \<Rightarrow> error + tensor" where
  "bn_bias multiplier mean bias =
     (case tmul (tneg multiplier) mean of
        Inl e \<Rightarrow> Inl e
      | Inr b \<Rightarrow> (case bias of None \<Rightarrow> Inr b | Some bi \<Rightarrow> tadd b bi))"

definition IntervalBounds_batch_norm ::
  "IntervalBounds \<Rightarrow> tensor \<Rightarrow> tensor \<Rightarrow> tensor option \<Rightarrow> tensor option \<Rightarrow> real \<Rightarrow>
   error + IntervalBounds" where
  "IntervalBounds_batch_norm self mean variance scale bias epsilon =
     (case ensure_singleton self of
        Inl e \<Rightarrow> Inl e
      | Inr (l, u) \<Rightarrow>
          (case bn_multiplier variance scale epsilon of Inl e \<Rightarrow> Inl e | Inr w \<Rightarrow>
          (case bn_bias w mean bias of Inl e \<Rightarrow> Inl e | Inr b0 \<Rightarrow>
          (case squeeze0 b0 of Inl e \<Rightarrow> Inl e | Inr b \<Rightarrow>
          (case tadd l u of Inl e \<Rightarrow> Inl e | Inr s \<Rightarrow>
          (case tsub u l of Inl e \<Rightarrow> Inl e | Inr d \<Rightarrow>
          (case tmul (thalf s) w of Inl e \<Rightarrow> Inl e | Inr cw \<Rightarrow>
          (case tadd cw b of Inl e \<Rightarrow> Inl e | Inr c \<Rightarrow>
          (case tmul (thalf d) (tabs w) of Inl e \<Rightarrow> Inl e | Inr r \<Rightarrow>
             center_radius c r)))))))))"

definition IntervalBounds_batch_flatten :: "IntervalBounds \<Rightarrow> error + IntervalBounds" where
  "IntervalBounds_batch_flatten self =
     (case ensure_singleton self of
        Inl e \<Rightarrow> Inl e
      | Inr (l, u) \<Rightarrow>
          (case BatchFlatten l of Inl e \<Rightarrow> Inl e | Inr lo \<Rightarrow>
          (case BatchFlatten u of Inl e \<Rightarrow> Inl e | Inr up \<Rightarrow>
             Inr \<lparr>lower = Tensor lo, upper = Tensor up\<rparr>)))"

section \<open>Layer wrappers and dispatch\<close>

text \<open>
  Modelled from the spec: the module \<^verbatim>\<open>verifiable_wrapper\<close> with the wrapper classes is
  not among the sources. A wrapper is one of the five layer kinds of the spec, holding the
  attributes of its module that \<^verbatim>\<open>propagate_through\<close> reads, or a wrapper of any other
  class, of which only the class name is read.
\<close>

record linear_module =
  lin_w :: tensor
  lin_has_bias :: bool
  lin_b :: tensor

record conv2d_module =
  conv_w :: tensor
  conv_has_bias :: bool
  conv_b :: tensor
  conv_padding :: padding
  conv_stride :: "nat list"

record batch_norm_module =
  bn_mean :: tensor
  bn_variance :: tensor
  bn_scale :: "tensor option"
  bn_bias_param :: "tensor option"
  bn_epsilon :: real

datatype wrapper =
    LinearFCWrapper linear_module
  | LinearConv2dWrapper conv2d_module
  | MonotonicWrapper fn_module
  | BatchNormWrapper batch_norm_module
  | BatchFlattenWrapper
  | OtherWrapper string

text \<open>
  A class of bounds: its name and, for each of the five handlers, the method that
  overrides the one of \<^verbatim>\<open>AbstractBounds\<close>, if any.
\<close>

record 'a bounds_class =
  class_name :: string
  linear_method :: "('a \<Rightarrow> tensor \<Rightarrow> tensor option \<Rightarrow> error + 'a) option"
  conv2d_method :: "('a \<Rightarrow> tensor \<Rightarrow> tensor option \<Rightarrow> padding \<Rightarrow> nat list \<Rightarrow> error + 'a) option"
  monotonic_fn_method :: "('a \<Rightarrow> fn_module \<Rightarrow> error + 'a) option"
  batch_norm_method ::
    "('a \<Rightarrow> tensor \<Rightarrow> tensor \<Rightarrow> tensor option \<Rightarrow> tensor option \<Rightarrow> real \<Rightarrow> error + 'a) option"
  batch_flatten_method :: "('a \<Rightarrow> error + 'a) option"

definition raise_not_implemented :: "'a bounds_class \<Rightarrow> string \<Rightarrow> error + 'a" where
  \<open>raise_not_implemented cls name =
     Inl (NotImplementedError (name @ '' modules are not supported by "'' @ class_name cls @ ''".''))\<close>

definition AbstractBounds_linear ::
  "'a bounds_class \<Rightarrow> 'a \<Rightarrow> tensor \<Rightarrow> tensor option \<Rightarrow> error + 'a" where
  "AbstractBounds_linear cls self w b = raise_not_implemented cls ''snt.Linear''"

definition AbstractBounds_conv2d ::
  "'a bounds_class \<Rightarrow> 'a \<Rightarrow> tensor \<Rightarrow> tensor option \<Rightarrow> padding \<Rightarrow> nat list \<Rightarrow> error + 'a" where
  "AbstractBounds_conv2d cls self w b pad strides = raise_not_implemented cls ''snt.Conv2D''"

definition AbstractBounds_monotonic_fn :: "'a bounds_class \<Rightarrow> 'a \<Rightarrow> fn_module \<Rightarrow> error + 'a" where
  "AbstractBounds_monotonic_fn cls self fn = raise_not_implemented cls (fn_name fn)"

definition AbstractBounds_batch_norm ::
  "'a bounds_class \<Rightarrow> 'a \<Rightarrow> tensor \<Rightarrow> tensor \<Rightarrow> tensor option \<Rightarrow> tensor option \<Rightarrow> real \<Rightarrow>
   error + 'a" where
  "AbstractBounds_batch_norm cls self mean variance scale bias epsilon =
     raise_not_implemented cls ''ibp.BatchNorm''"

definition AbstractBounds_batch_flatten :: "'a bounds_class \<Rightarrow> 'a \<Rightarrow> error + 'a" where
  "AbstractBounds_batch_flatten cls self = raise_not_implemented cls ''snt.BatchFlatten''"

text \<open>Method lookup: the override of the class if there is one, else the inherited method.\<close>

definition call_linear :: "'a bounds_class \<Rightarrow> 'a \<Rightarrow> tensor \<Rightarrow> tensor option \<Rightarrow> error + 'a" where
  "call_linear cls self w b =
     (case linear_method cls of
        Some m \<Rightarrow> m self w b
      | None \<Rightarrow> AbstractBounds_linear cls self w b)"

definition call_conv2d ::
  "'a bounds_class \<Rightarrow> 'a \<Rightarrow> tensor \<Rightarrow> tensor option \<Rightarrow> padding \<Rightarrow> nat list \<Rightarrow> error + 'a" where
  "call_conv2d cls self w b pad strides =
     (case conv2d_method cls of
        Some m \<Rightarrow> m self w b pad strides
      | None \<Rightarrow> AbstractBounds_conv2d cls self w b pad strides)"

definition call_monotonic_fn :: "'a bounds_class \<Rightarrow> 'a \<Rightarrow> fn_module \<Rightarrow> error + 'a" where
  "call_monotonic_fn cls self fn =
     (case monotonic_fn_method cls of
        Some m \<Rightarrow> m self fn
      | None \<Rightarrow> AbstractBounds_monotonic_fn cls self fn)"

definition call_batch_norm ::
  "'a bounds_class \<Rightarrow> 'a \<Rightarrow> tensor \<Rightarrow> tensor \<Rightarrow> tensor option \<Rightarrow> tensor option \<Rightarrow> real \<Rightarrow>
   error + 'a" where
  "call_batch_norm cls self mean variance scale bias epsilon =
     (case batch_norm_method cls of
        Some m \<Rightarrow> m self mean variance scale bias epsilon
      | None \<Rightarrow> AbstractBounds_batch_norm cls self mean variance scale bias epsilon)"

definition call_batch_flatten :: "'a bounds_class \<Rightarrow> 'a \<Rightarrow> error + 'a" where
  "call_batch_flatten cls self =
     (case batch_flatten_method cls of
        Some m \<Rightarrow> m self
      | None \<Rightarrow> AbstractBounds_batch_flatten cls self)"

text \<open>Python's slice \<^verbatim>\<open>stride[1:-1]\<close>.\<close>

definition slice_1_m1 :: "'b list \<Rightarrow> 'b list" where
  "slice_1_m1 xs = butlast (tl xs)"

definition propagate_through :: "'a bounds_class \<Rightarrow> 'a \<Rightarrow> wrapper \<Rightarrow> error + 'a" where
  "propagate_through cls self wrapper =
     (case wrapper of
        LinearFCWrapper m \<Rightarrow>
          call_linear cls self (lin_w m) (if lin_has_bias m then Some (lin_b m) else None)
      | LinearConv2dWrapper m \<Rightarrow>
          call_conv2d cls self (conv_w m) (if conv_has_bias m then Some (conv_b m) else None)
            (conv_padding m) (slice_1_m1 (conv_stride m))
      | MonotonicWrapper fn \<Rightarrow> call_monotonic_fn cls self fn
      | BatchNormWrapper m \<Rightarrow>
          call_batch_norm cls self (bn_mean m) (bn_variance m) (bn_scale m) (bn_bias_param m)
            (bn_epsilon m)
      | BatchFlattenWrapper \<Rightarrow> call_batch_flatten cls self
      | OtherWrapper n \<Rightarrow> Inl (NotImplementedError (n @ '' not supported.'')))"

text \<open>The class \<^verbatim>\<open>IntervalBounds\<close> overrides all five handlers.\<close>

definition IntervalBounds_class :: "IntervalBounds bounds_class" where
  "IntervalBounds_class =
     \<lparr>class_name = ''IntervalBounds'',
      linear_method = Some IntervalBounds_linear,
      conv2d_method = Some IntervalBounds_conv2d,
      monotonic_fn_method = Some IntervalBounds_monotonic_fn,
      batch_norm_method = Some IntervalBounds_batch_norm,
      batch_flatten_method = Some IntervalBounds_batch_flatten\<rparr>"

section \<open>Bounds as objects on a heap\<close>

text \<open>
  In the source a bounds value is an object, \<^verbatim>\<open>self\<close> is a reference to it, and its state
  is the two attributes \<^verbatim>\<open>_lower\<close> and \<^verbatim>\<open>_upper\<close>. The heap holds the objects by
  address; an attribute is unset until it is assigned. A program takes the heap and
  returns a value or an exception together with the heap it leaves.
\<close>

record obj =
  attr_lower :: "bval option"
  attr_upper :: "bval option"

type_synonym heap = "obj list"

type_synonym 'a prog = "heap \<Rightarrow> (error + 'a) \<times> heap"

definition ret :: "'a \<Rightarrow> 'a prog" where
  "ret x h = (Inr x, h)"

definition raise :: "error \<Rightarrow> 'a prog" where
  "raise e h = (Inl e, h)"

definition seq :: "'a prog \<Rightarrow> ('a \<Rightarrow> 'b prog) \<Rightarrow> 'b prog" where
  "seq p f h = (case p h of (Inl e, h') \<Rightarrow> (Inl e, h') | (Inr x, h') \<Rightarrow> f x h')"

text \<open>An operation on tensors does not touch the heap.\<close>

definition lift :: "error + 'a \<Rightarrow> 'a prog" where
  "lift r h = (r, h)"

text \<open>Reading and assigning the attributes \<^verbatim>\<open>_lower\<close> and \<^verbatim>\<open>_upper\<close> of an object.\<close>

definition getattr_lower :: "nat \<Rightarrow> bval prog" where
  "getattr_lower a h =
     (if a < length h
      then (case attr_lower (h ! a) of Some v \<Rightarrow> (Inr v, h) | None \<Rightarrow> (Inl AttributeError, h))
      else (Inl AttributeError, h))"

definition getattr_upper :: "nat \<Rightarrow> bval prog" where
  "getattr_upper a h =
     (if a < length h
      then (case attr_upper (h ! a) of Some v \<Rightarrow> (Inr v, h) | None \<Rightarrow> (Inl AttributeError, h))
      else (Inl AttributeError, h))"

definition setattr_lower :: "nat \<Rightarrow> bval \<Rightarrow> unit prog" where
  "setattr_lower a v h =
     (if a < length h then (Inr (), h[a := (h ! a)\<lparr>attr_lower := Some v\<rparr>])
      else (Inl AttributeError, h))"

definition setattr_upper :: "nat \<Rightarrow> bval \<Rightarrow> unit prog" where
  "setattr_upper a v h =
     (if a < length h then (Inr (), h[a := (h ! a)\<lparr>attr_upper := Some v\<rparr>])
      else (Inl AttributeError, h))"

text \<open>A new object, with no attribute yet, at the next free address.\<close>

definition new_object :: "nat prog" where
  "new_object h = (Inr (length h), h @ [\<lparr>attr_lower = None, attr_upper = None\<rparr>])"

text \<open>\<^verbatim>\<open>__init__\<close> and the constructor call \<^verbatim>\<open>IntervalBounds(lower, upper)\<close>.\<close>

definition IntervalBounds_init :: "nat \<Rightarrow> bval \<Rightarrow> bval \<Rightarrow> unit prog" where
  "IntervalBounds_init self lo up =
     seq (setattr_lower self lo) (\<lambda>_. setattr_upper self up)"

definition IntervalBounds_new :: "bval \<Rightarrow> bval \<Rightarrow> nat prog" where
  "IntervalBounds_new lo up =
     seq new_object (\<lambda>a. seq (IntervalBounds_init a lo up) (\<lambda>_. ret a))"

text \<open>
  Where the source computes with \<^verbatim>\<open>self.lower\<close> as a tensor, or unpacks it as a tuple,
  a value of the other kind is a \<^verbatim>\<open>TypeError\<close>; the guards before rule it out.
\<close>

fun tensor_of :: "bval \<Rightarrow> tensor prog" where
  "tensor_of (Tensor t) = ret t"
| "tensor_of (Tuple _) = raise TypeError"

fun tuple_of :: "bval \<Rightarrow> tensor list prog" where
  "tuple_of (Tuple ts) = ret ts"
| "tuple_of (Tensor _) = raise TypeError"

definition lower_tensor :: "nat \<Rightarrow> tensor prog" where
  "lower_tensor self = seq (getattr_lower self) tensor_of"

definition upper_tensor :: "nat \<Rightarrow> tensor prog" where
  "upper_tensor self = seq (getattr_upper self) tensor_of"

definition ensure_singleton_prog :: "nat \<Rightarrow> unit prog" where
  "ensure_singleton_prog self =
     seq (getattr_lower self) (\<lambda>lo.
       if is_tuple lo then raise (ValueError ''Cannot proceed with multiple inputs.'')
       else seq (getattr_upper self) (\<lambda>up.
         if is_tuple up then raise (ValueError ''Cannot proceed with multiple inputs.'')
         else ret ()))"

text \<open>The argument of \<^verbatim>\<open>combine_with\<close>: a reference to an \<^verbatim>\<open>IntervalBounds\<close>, or
  another object.\<close>

datatype ref_arg = Ref nat | NotIntervalRef string

definition combine_with_prog :: "nat \<Rightarrow> ref_arg \<Rightarrow> nat prog" where
  "combine_with_prog self bounds =
     (case bounds of
        NotIntervalRef r \<Rightarrow>
          raise (NotImplementedError (''Cannot combine IntervalBounds with '' @ r))
      | Ref other \<Rightarrow>
          seq (ensure_singleton_prog other) (\<lambda>_.
          seq (getattr_lower self) (\<lambda>lo.
            if \<not> is_tuple lo
            then seq (ensure_singleton_prog self) (\<lambda>_.
                 seq (lower_tensor self) (\<lambda>l.
                 seq (lower_tensor other) (\<lambda>bl.
                 seq (upper_tensor self) (\<lambda>u.
                 seq (upper_tensor other) (\<lambda>bu.
                   IntervalBounds_new (Tuple [l, bl]) (Tuple [u, bu]))))))
            else seq (getattr_lower self) (\<lambda>lo'.
                 seq (lower_tensor other) (\<lambda>bl.
                 seq (lift (plus_tuple1 lo' bl)) (\<lambda>lower'.
                 seq (getattr_upper self) (\<lambda>up'.
                 seq (upper_tensor other) (\<lambda>bu.
                 seq (lift (plus_tuple1 up' bu)) (\<lambda>upper'.
                   IntervalBounds_new lower' upper')))))))))"

definition linear_prog :: "nat \<Rightarrow> tensor \<Rightarrow> tensor option \<Rightarrow> nat prog" where
  "linear_prog self w b =
     seq (ensure_singleton_prog self) (\<lambda>_.
     seq (lower_tensor self) (\<lambda>l.
     seq (upper_tensor self) (\<lambda>u.
     seq (lift (tadd l u)) (\<lambda>s.
     seq (upper_tensor self) (\<lambda>u'.
     seq (lower_tensor self) (\<lambda>l'.
     seq (lift (tsub u' l')) (\<lambda>d.
     seq (lift (matmul (thalf s) w)) (\<lambda>c.
     seq (lift (add_bias c b)) (\<lambda>c'.
     seq (lift (matmul (thalf d) (tabs w))) (\<lambda>r.
     seq (lift (tsub c' r)) (\<lambda>lo.
     seq (lift (tadd c' r)) (\<lambda>up.
       IntervalBounds_new (Tensor lo) (Tensor up)))))))))))))"

definition conv2d_prog ::
  "nat \<Rightarrow> tensor \<Rightarrow> tensor option \<Rightarrow> padding \<Rightarrow> nat list \<Rightarrow> nat prog" where
  "conv2d_prog self w b pad strides =
     seq (ensure_singleton_prog self) (\<lambda>_.
     seq (lower_tensor self) (\<lambda>l.
     seq (upper_tensor self) (\<lambda>u.
     seq (lift (tadd l u)) (\<lambda>s.
     seq (upper_tensor self) (\<lambda>u'.
     seq (lower_tensor self) (\<lambda>l'.
     seq (lift (tsub u' l')) (\<lambda>d.
     seq (lift (convolution (thalf s) w pad strides)) (\<lambda>c.
     seq (lift (add_bias c b)) (\<lambda>c'.
     seq (lift (convolution (thalf d) (tabs w) pad strides)) (\<lambda>r.
     seq (lift (tsub c' r)) (\<lambda>lo.
     seq (lift (tadd c' r)) (\<lambda>up.
       IntervalBounds_new (Tensor lo) (Tensor up)))))))))))))"

definition monotonic_fn_prog :: "nat \<Rightarrow> fn_module \<Rightarrow> nat prog" where
  "monotonic_fn_prog self fn =
     seq (getattr_lower self) (\<lambda>lo.
       if is_tuple lo
       then seq (getattr_upper self) (\<lambda>up.
              if \<not> is_tuple up then raise AssertionError
              else seq (seq (getattr_lower self) tuple_of) (\<lambda>ls.
                   seq (lift (fn_call fn ls)) (\<lambda>a.
                   seq (seq (getattr_upper self) tuple_of) (\<lambda>us.
                   seq (lift (fn_call fn us)) (\<lambda>c.
                     IntervalBounds_new (Tensor a) (Tensor c))))))
       else seq (ensure_singleton_prog self) (\<lambda>_.
            seq (lower_tensor self) (\<lambda>l.
            seq (lift (fn_call fn [l])) (\<lambda>a.
            seq (upper_tensor self) (\<lambda>u.
            seq (lift (fn_call fn [u])) (\<lambda>c.
              IntervalBounds_new (Tensor a) (Tensor c)))))))"

definition batch_norm_prog ::
  "nat \<Rightarrow> tensor \<Rightarrow> tensor \<Rightarrow> tensor option \<Rightarrow> tensor option \<Rightarrow> real \<Rightarrow> nat prog" where
  "batch_norm_prog self mean variance scale bias epsilon =
     seq (ensure_singleton_prog self) (\<lambda>_.
     seq (lift (bn_multiplier variance scale epsilon)) (\<lambda>w.
     seq (lift (bn_bias w mean bias)) (\<lambda>b0.
     seq (lift (squeeze0 b0)) (\<lambda>b.
     seq (lower_tensor self) (\<lambda>l.
     seq (upper_tensor self) (\<lambda>u.
     seq (lift (tadd l u)) (\<lambda>s.
     seq (upper_tensor self) (\<lambda>u'.
     seq (lower_tensor self) (\<lambda>l'.
     seq (lift (tsub u' l')) (\<lambda>d.
     seq (lift (tmul (thalf s) w)) (\<lambda>cw.
     seq (lift (tadd cw b)) (\<lambda>c.
     seq (lift (tmul (thalf d) (tabs w))) (\<lambda>r.
     seq (lift (tsub c r)) (\<lambda>lo.
     seq (lift (tadd c r)) (\<lambda>up.
       IntervalBounds_new (Tensor lo) (Tensor up))))))))))))))))"

definition batch_flatten_prog :: "nat \<Rightarrow> nat prog" where
  "batch_flatten_prog self =
     seq (ensure_singleton_prog self) (\<lambda>_.
     seq (lower_tensor self) (\<lambda>l.
     seq (lift (BatchFlatten l)) (\<lambda>lo.
     seq (upper_tensor self) (\<lambda>u.
     seq (lift (BatchFlatten u)) (\<lambda>up.
       IntervalBounds_new (Tensor lo) (Tensor up))))))"

text \<open>\<^verbatim>\<open>propagate_through\<close> on a reference to an \<^verbatim>\<open>IntervalBounds\<close>.\<close>

definition propagate_through_prog :: "nat \<Rightarrow> wrapper \<Rightarrow> nat prog" where
  "propagate_through_prog self wrapper =
     (case wrapper of
        LinearFCWrapper m \<Rightarrow>
          linear_prog self (lin_w m) (if lin_has_bias m then Some (lin_b m) else None)
      | LinearConv2dWrapper m \<Rightarrow>
          conv2d_prog self (conv_w m) (if conv_has_bias m then Some (conv_b m) else None)
            (conv_padding m) (slice_1_m1 (conv_stride m))
      | MonotonicWrapper fn \<Rightarrow> monotonic_fn_prog self fn
      | BatchNormWrapper m \<Rightarrow>
          batch_norm_prog self (bn_mean m) (bn_variance m) (bn_scale m) (bn_bias_param m)
            (bn_epsilon m)
      | BatchFlattenWrapper \<Rightarrow> batch_flatten_prog self
      | OtherWrapper n \<Rightarrow> raise (NotImplementedError (n @ '' not supported.'')))"

text \<open>
  What a call may do to the heap: nothing at all, or nothing but store one new object at
  the next free address and return that address.
\<close>

definition pure_prog :: "'a prog \<Rightarrow> bool" where
  "pure_prog p = (\<forall>h. snd (p h) = h)"

definition allocating :: "nat prog \<Rightarrow> bool" where
  "allocating p =
     (\<forall>h. case p h of
            (Inl e, h') \<Rightarrow> h' = h
          | (Inr a, h') \<Rightarrow> a = length h \<and> (\<exists>ob. h' = h @ [ob]))"

text \<open>The object at an address as a value, if both attributes are set.\<close>

definition object_value :: "heap \<Rightarrow> nat \<Rightarrow> IntervalBounds option" where
  "object_value h a =
     (if a < length h
      then (case (attr_lower (h ! a), attr_upper (h ! a)) of
              (Some lo, Some up) \<Rightarrow> Some \<lparr>lower = lo, upper = up\<rparr>
            | _ \<Rightarrow> None)
      else None)"

text \<open>The outcome of a method on the heap that its value-level definition determines.\<close>

definition stored :: "heap \<Rightarrow> error + IntervalBounds \<Rightarrow> (error + nat) \<times> heap" where
  "stored h r =
     (case r of
        Inl e \<Rightarrow> (Inl e, h)
      | Inr v \<Rightarrow> (Inr (length h),
                  h @ [\<lparr>attr_lower = Some (lower v), attr_upper = Some (upper v)\<rparr>]))"

section \<open>Properties stated by the specification\<close>

text \<open>The ordering of tensors, of fields and the invariant of a bounds value.\<close>

definition tle :: "tensor \<Rightarrow> tensor \<Rightarrow> bool" where
  "tle a b = (shape a = shape b \<and> list_all2 (\<le>) (dat a) (dat b))"

definition nonneg :: "tensor \<Rightarrow> bool" where
  "nonneg t = (\<forall>x \<in> set (dat t). 0 \<le> x)"

fun ble :: "bval \<Rightarrow> bval \<Rightarrow> bool" where
  "ble (Tensor a) (Tensor b) = tle a b"
| "ble (Tuple as) (Tuple bs) = list_all2 tle as bs"
| "ble _ _ = False"

definition ordered :: "IntervalBounds \<Rightarrow> bool" where
  "ordered self = ble (lower self) (upper self)"

text \<open>The precondition on a wrapped function: non-decreasing in every argument.\<close>

definition monotonic :: "fn_module \<Rightarrow> bool" where
  "monotonic fn =
     (\<forall>xs ys l u. list_all2 tle xs ys \<longrightarrow> fn_call fn xs = Inr l \<longrightarrow> fn_call fn ys = Inr u \<longrightarrow>
        tle l u)"


text \<open>The error that the specification calls MultiSourceViolation.\<close>

definition MultiSourceViolation :: error where
  "MultiSourceViolation = ValueError ''Cannot proceed with multiple inputs.''"

text \<open>
  The specification's formulas for an affine layer, element by element. For a batch of
  \<open>n\<close> rows of \<open>k\<close> features and a weight matrix \<open>k \<times> m\<close>, element \<open>(i, j)\<close> of the
  output centre is \<open>c\<cdot>w + b\<close> and of the output radius \<open>r\<cdot>|w|\<close>, with
  \<open>c = (lower + upper) / 2\<close> and \<open>r = (upper - lower) / 2\<close>.
\<close>

definition table2 :: "nat \<Rightarrow> nat \<Rightarrow> (nat \<Rightarrow> nat \<Rightarrow> real) \<Rightarrow> tensor" where
  "table2 n m f = \<lparr>shape = [n, m], dat = tab n m f\<rparr>"

definition linear_center ::
  "tensor \<Rightarrow> tensor \<Rightarrow> tensor \<Rightarrow> tensor option \<Rightarrow> nat \<Rightarrow> nat \<Rightarrow> nat \<Rightarrow> nat \<Rightarrow> real" where
  "linear_center l u w b k m i j =
     (\<Sum>q\<leftarrow>[0..<k]. (dat l ! (i * k + q) + dat u ! (i * k + q)) / 2 * dat w ! (q * m + j))
     + (case b of None \<Rightarrow> 0 | Some b' \<Rightarrow> dat b' ! j)"

definition linear_radius ::
  "tensor \<Rightarrow> tensor \<Rightarrow> tensor \<Rightarrow> nat \<Rightarrow> nat \<Rightarrow> nat \<Rightarrow> nat \<Rightarrow> real" where
  "linear_radius l u w k m i j =
     (\<Sum>q\<leftarrow>[0..<k]. (dat u ! (i * k + q) - dat l ! (i * k + q)) / 2 * \<bar>dat w ! (q * m + j)\<bar>)"

text \<open>
  The specification's fold of batch normalisation, for feature \<open>j\<close>:
  \<open>multiplier = 1 / sqrt (variance + epsilon)\<close>, times \<open>scale\<close> if present;
  \<open>bias_term = - multiplier * mean\<close>, plus \<open>bias\<close> if present.
\<close>

definition fold_multiplier :: "tensor \<Rightarrow> tensor option \<Rightarrow> real \<Rightarrow> nat \<Rightarrow> real" where
  "fold_multiplier variance scale epsilon j =
     1 / sqrt (dat variance ! j + epsilon) * (case scale of None \<Rightarrow> 1 | Some s \<Rightarrow> dat s ! j)"

definition fold_bias_term ::
  "tensor \<Rightarrow> tensor \<Rightarrow> tensor option \<Rightarrow> tensor option \<Rightarrow> real \<Rightarrow> nat \<Rightarrow> real" where
  "fold_bias_term mean variance scale bias epsilon j =
     - fold_multiplier variance scale epsilon j * dat mean ! j
     + (case bias of None \<Rightarrow> 0 | Some b \<Rightarrow> dat b ! j)"

section \<open>Example modules\<close>

text \<open>Two functions that a \<^verbatim>\<open>MonotonicWrapper\<close> wraps: \<^verbatim>\<open>tf.nn.relu\<close> of one argument
  and \<^verbatim>\<open>tf.add\<close> of two.\<close>

definition relu :: fn_module where
  "relu = \<lparr>fn_name = ''relu'',
           fn_call = (\<lambda>args. case args of [x] \<Rightarrow> Inr (tmap (max 0) x) | _ \<Rightarrow> Inl TypeError)\<rparr>"

definition add :: fn_module where
  "add = \<lparr>fn_name = ''add'',
          fn_call = (\<lambda>args. case args of [x, y] \<Rightarrow> tadd x y | _ \<Rightarrow> Inl TypeError)\<rparr>"

text \<open>Scalars and one-row matrices of the worked examples.\<close>

definition scalar :: "real \<Rightarrow> tensor" where
  "scalar x = \<lparr>shape = [], dat = [x]\<rparr>"

definition mat11 :: "real \<Rightarrow> tensor" where
  "mat11 x = \<lparr>shape = [1, 1], dat = [x]\<rparr>"

definition vec1 :: "real \<Rightarrow> tensor" where
  "vec1 x = \<lparr>shape = [1], dat = [x]\<rparr>"

section \<open>Auxiliary facts about tensors\<close>

lemma set_expand: "set (expand ds ts xs) \<subseteq> set xs"
proof (induction ds ts xs rule: expand.induct)
  case (1 d ds t ts xs)
  show ?case
  proof (cases "d = t")
    case True
    have "set (expand ds ts (take (prod_list ds) (drop (i * prod_list ds) xs))) \<subseteq> set xs"
      if "i < d" for i
    proof -
      have "set (take (prod_list ds) (drop (i * prod_list ds) xs)) \<subseteq> set xs"
        by (meson set_take_subset set_drop_subset subset_trans)
      with 1(1)[OF True, of i] that show ?thesis by auto
    qed
    with True show ?thesis by fastforce
  next
    case False
    with 1(2) show ?thesis by auto
  qed
qed simp_all

lemma set_bcast: "set (bcast s t xs) \<subseteq> set xs"
  by (simp add: bcast_def set_expand)

lemma list_all2_concat_map:
  "(\<And>i. i \<in> set is \<Longrightarrow> list_all2 P (f i) (g i)) \<Longrightarrow> list_all2 P (concat (map f is)) (concat (map g is))"
  by (induction "is") (auto intro: list_all2_appendI)

lemma list_all2_expand:
  "list_all2 P xs ys \<Longrightarrow> list_all2 P (expand ds ts xs) (expand ds ts ys)"
proof (induction ds ts xs arbitrary: ys rule: expand.induct)
  case (1 d ds t ts xs)
  show ?case
  proof (cases "d = t")
    case True
    have "list_all2 P (expand ds ts (take (prod_list ds) (drop (i * prod_list ds) xs)))
                      (expand ds ts (take (prod_list ds) (drop (i * prod_list ds) ys)))"
      if "i \<in> set [0..<d]" for i
      using 1(1)[OF True that] 1(3) by (simp add: list_all2_takeI list_all2_dropI)
    then show ?thesis using True by (auto intro!: list_all2_concat_map)
  next
    case False
    have "list_all2 P (expand ds ts xs) (expand ds ts ys)" using 1(2)[OF False 1(3)] .
    then have "list_all2 P (concat (map (\<lambda>_. expand ds ts xs) [0..<t])) (concat (map (\<lambda>_. expand ds ts ys) [0..<t]))"
      by (intro list_all2_concat_map)
    then show ?thesis using False by (simp add: map_replicate_const)
  qed
qed simp_all

lemma bshape_rev_same: "bshape_rev s s = Some s"
  by (induction s) auto

lemma broadcast_shape_same: "broadcast_shape s s = Some s"
  by (simp add: broadcast_shape_def bshape_rev_same)

lemma tbin_dat:
  assumes "tbin f a b = Inr c"
  shows "\<exists>A B. dat c = map2 f A B \<and> set A \<subseteq> set (dat a) \<and> set B \<subseteq> set (dat b)"
  using assms set_bcast
  by (fastforce simp: tbin_def split: option.splits)

lemma tbin_same_shape:
  assumes "shape a = shape b" "tbin f a b = Inr c"
  shows "shape c = shape a \<and> (\<forall>P. list_all2 P (dat a) (dat b) \<longrightarrow> (\<exists>A B. dat c = map2 f A B \<and> list_all2 P A B))"
  using assms list_all2_expand
  by (fastforce simp: tbin_def broadcast_shape_same bcast_def)

lemma tsub_nonneg:
  assumes "tle l u" "tsub u l = Inr d" shows "nonneg d"
proof -
  from assms have sh: "shape u = shape l" and le: "list_all2 (\<lambda>x y. y \<le> x) (dat u) (dat l)" by (auto simp: tle_def list_all2_conv_all_nth)
  from tbin_same_shape[OF sh assms(2)[unfolded tsub_def]] le
  obtain A B where "dat d = map2 (-) A B" "list_all2 (\<lambda>x y. y \<le> x) A B" by blast
  then show ?thesis by (auto simp: nonneg_def list_all2_conv_all_nth in_set_zip)
qed

lemma nonneg_el: "nonneg t \<Longrightarrow> 0 \<le> el t i"
  by (simp add: nonneg_def el_def)

lemma nonneg_thalf: "nonneg t \<Longrightarrow> nonneg (thalf t)"
  by (auto simp: nonneg_def thalf_def tmap_def)

lemma nonneg_tabs: "nonneg (tabs t)"
  by (auto simp: nonneg_def tabs_def tmap_def)

lemma sum_list_map_nonneg: "(\<And>x. x \<in> set xs \<Longrightarrow> (0::real) \<le> f x) \<Longrightarrow> 0 \<le> sum_list (map f xs)"
  by (induction xs) auto

lemma matmul_nonneg:
  assumes "matmul a b = Inr c" "nonneg a" "nonneg b" shows "nonneg c"
proof -
  from assms(1) obtain n k m where
    c: "c = \<lparr>shape = [n, m],
              dat = tab n m (\<lambda>i j. \<Sum>q\<leftarrow>[0..<k]. el a (i * k + q) * el b (q * m + j))\<rparr>"
    by (auto simp: matmul_def split: list.splits if_splits)
  show ?thesis unfolding nonneg_def c tab_def
    by (auto intro!: sum_list_map_nonneg mult_nonneg_nonneg nonneg_el assms)
qed

lemma convolution_nonneg:
  assumes "convolution x f p strides = Inr c" "nonneg x" "nonneg f" shows "nonneg c"
proof -
  have at: "0 \<le> conv_at x f H W C KH KW CO sh sw pt pl n oh ow co" for H W C KH KW CO sh sw pt pl n oh ow co
    unfolding conv_at_def
    by (intro sum_list_map_nonneg mult_nonneg_nonneg nonneg_el assms) (simp add: nonneg_el assms)
  from assms(1) show ?thesis unfolding nonneg_def
    by (auto simp: convolution_def at split: list.splits if_splits option.splits)
qed

lemma tmul_nonneg:
  assumes "tmul a b = Inr c" "nonneg a" "nonneg b" shows "nonneg c"
proof -
  from tbin_dat[OF assms(1)[unfolded tmul_def]] obtain A B where
    "dat c = map2 (*) A B" "set A \<subseteq> set (dat a)" "set B \<subseteq> set (dat b)" by blast
  with assms(2,3) show ?thesis
    by (auto simp: nonneg_def in_set_zip subset_iff intro!: mult_nonneg_nonneg)
qed



lemma ensure_singleton_Inr:
  "ensure_singleton self = Inr (l, u) \<longleftrightarrow> lower self = Tensor l \<and> upper self = Tensor u"
  by (auto simp: ensure_singleton_def split: bval.splits)

lemma ordered_singleton:
  "ordered self \<Longrightarrow> ensure_singleton self = Inr (l, u) \<Longrightarrow> tle l u"
  by (simp add: ensure_singleton_Inr ordered_def)

lemma center_radius_ordered:
  assumes "center_radius c r = Inr out" "nonneg r"
  shows "ordered out"
proof -
  from assms(1) obtain lo up where lo: "tsub c r = Inr lo" and up: "tadd c r = Inr up"
    and out: "out = \<lparr>lower = Tensor lo, upper = Tensor up\<rparr>"
    by (auto simp: center_radius_def split: sum.splits)
  from lo up obtain s where s: "broadcast_shape (shape c) (shape r) = Some s"
    and dlo: "dat lo = map2 (-) (bcast (shape c) s (dat c)) (bcast (shape r) s (dat r))"
    and dup: "dat up = map2 (+) (bcast (shape c) s (dat c)) (bcast (shape r) s (dat r))"
    and sh: "shape lo = s" "shape up = s"
    by (auto simp: tsub_def tadd_def tbin_def split: option.splits)
  have "\<forall>x \<in> set (bcast (shape r) s (dat r)). 0 \<le> x"
    using assms(2) set_bcast[of "shape r" s "dat r"] by (auto simp: nonneg_def)
  then have "list_all2 (\<le>) (dat lo) (dat up)"
    unfolding dlo dup by (auto simp: list_all2_conv_all_nth)
  with sh show ?thesis by (simp add: out ordered_def tle_def)
qed

lemma linear_ordered:
  assumes "ordered self" "IntervalBounds_linear self w b = Inr out"
  shows "ordered out"
proof -
  from assms(2) obtain l u d c' r where
    "ensure_singleton self = Inr (l, u)" "tsub u l = Inr d"
    "matmul (thalf d) (tabs w) = Inr r" "center_radius c' r = Inr out"
    by (auto simp: IntervalBounds_linear_def split: sum.splits prod.splits)
  with assms(1) show ?thesis
    by (meson center_radius_ordered matmul_nonneg nonneg_tabs nonneg_thalf tsub_nonneg ordered_singleton)
qed

lemma conv2d_ordered:
  assumes "ordered self" "IntervalBounds_conv2d self w b pad strides = Inr out"
  shows "ordered out"
proof -
  from assms(2) obtain l u d c' r where
    "ensure_singleton self = Inr (l, u)" "tsub u l = Inr d"
    "convolution (thalf d) (tabs w) pad strides = Inr r" "center_radius c' r = Inr out"
    by (auto simp: IntervalBounds_conv2d_def split: sum.splits prod.splits)
  with assms(1) show ?thesis
    by (meson center_radius_ordered convolution_nonneg nonneg_tabs nonneg_thalf tsub_nonneg ordered_singleton)
qed

lemma batch_norm_ordered:
  assumes "ordered self" "IntervalBounds_batch_norm self mean variance scale bias epsilon = Inr out"
  shows "ordered out"
proof -
  from assms(2) obtain l u d w c r where
    "ensure_singleton self = Inr (l, u)" "tsub u l = Inr d"
    "tmul (thalf d) (tabs w) = Inr r" "center_radius c r = Inr out"
    by (auto simp: IntervalBounds_batch_norm_def split: sum.splits prod.splits)
  with assms(1) show ?thesis
    by (meson center_radius_ordered tmul_nonneg nonneg_tabs nonneg_thalf tsub_nonneg ordered_singleton)
qed

lemma BatchFlatten_tle:
  "tle l u \<Longrightarrow> BatchFlatten l = Inr lo \<Longrightarrow> BatchFlatten u = Inr up \<Longrightarrow> tle lo up"
  by (auto simp: tle_def BatchFlatten_def split: list.splits)

lemma batch_flatten_ordered:
  assumes "ordered self" "IntervalBounds_batch_flatten self = Inr out"
  shows "ordered out"
proof -
  from assms(2) obtain l u lo up where
    "ensure_singleton self = Inr (l, u)" "BatchFlatten l = Inr lo" "BatchFlatten u = Inr up"
    "out = \<lparr>lower = Tensor lo, upper = Tensor up\<rparr>"
    by (auto simp: IntervalBounds_batch_flatten_def split: sum.splits prod.splits)
  with assms(1) show ?thesis
    using BatchFlatten_tle ordered_singleton by (fastforce simp: ordered_def)
qed

lemma monotonic_fn_ordered:
  assumes "ordered self" "monotonic fn" "IntervalBounds_monotonic_fn self fn = Inr out"
  shows "ordered out"
proof (cases "lower self")
  case (Tuple ls)
  with assms(3) obtain us lo up where us: "upper self = Tuple us"
    and "fn_call fn ls = Inr lo" "fn_call fn us = Inr up"
    and out: "out = \<lparr>lower = Tensor lo, upper = Tensor up\<rparr>"
    by (auto simp: IntervalBounds_monotonic_fn_def split: sum.splits bval.splits)
  moreover from assms(1) Tuple us have "list_all2 tle ls us" by (simp add: ordered_def)
  ultimately have "tle lo up" using assms(2) unfolding monotonic_def by blast
  then show ?thesis by (simp add: out ordered_def)
next
  case (Tensor l0)
  with assms(3) obtain l u lo up where es: "ensure_singleton self = Inr (l, u)"
    and "fn_call fn [l] = Inr lo" "fn_call fn [u] = Inr up"
    and out: "out = \<lparr>lower = Tensor lo, upper = Tensor up\<rparr>"
    by (auto simp: IntervalBounds_monotonic_fn_def split: sum.splits prod.splits)
  moreover from ordered_singleton[OF assms(1) es] have "list_all2 tle [l] [u]" by simp
  ultimately have "tle lo up" using assms(2) unfolding monotonic_def by blast
  then show ?thesis by (simp add: out ordered_def)
qed

subsection \<open>Broadcasting of well-formed tensors\<close>

lemma concat_chunks:
  "length xs = d * p \<Longrightarrow> concat (map (\<lambda>i. take p (drop (i * p) xs)) [0..<d]) = xs"
proof (induction d arbitrary: xs)
  case 0
  then show ?case by simp
next
  case (Suc d)
  have "[0..<Suc d] = 0 # map Suc [0..<d]"
    by (simp add: upt_conv_Cons map_Suc_upt del: upt_Suc)
  then have "concat (map (\<lambda>i. take p (drop (i * p) xs)) [0..<Suc d])
      = take p xs @ concat (map (\<lambda>i. take p (drop (i * p) (drop p xs))) [0..<d])"
    by (simp add: comp_def add.commute del: upt_Suc)
  also have "concat (map (\<lambda>i. take p (drop (i * p) (drop p xs))) [0..<d]) = drop p xs"
    using Suc.prems by (intro Suc.IH) simp
  finally show ?case by simp
qed

lemma expand_same: "length xs = prod_list s \<Longrightarrow> expand s s xs = xs"
proof (induction s arbitrary: xs)
  case Nil
  then show ?case by simp
next
  case (Cons d ds)
  let ?p = "prod_list ds"
  have len: "length xs = d * ?p" using Cons.prems by simp
  have "expand ds ds (take ?p (drop (i * ?p) xs)) = take ?p (drop (i * ?p) xs)"
    if "i \<in> set [0..<d]" for i
  proof (rule Cons.IH)
    from that have "Suc i \<le> d" by simp
    then have "Suc i * ?p \<le> d * ?p" by (rule mult_le_mono1)
    then show "length (take ?p (drop (i * ?p) xs)) = ?p" using len by simp
  qed
  then have m: "map (\<lambda>i. expand ds ds (take ?p (drop (i * ?p) xs))) [0..<d]
      = map (\<lambda>i. take ?p (drop (i * ?p) xs)) [0..<d]"
    by (intro map_cong) auto
  have "expand (d # ds) (d # ds) xs
      = concat (map (\<lambda>i. expand ds ds (take ?p (drop (i * ?p) xs))) [0..<d])"
    by simp
  also have "\<dots> = concat (map (\<lambda>i. take ?p (drop (i * ?p) xs)) [0..<d])"
    by (simp only: m)
  also have "\<dots> = xs" by (rule concat_chunks[OF len])
  finally show ?case .
qed

lemma tbin_same:
  assumes "shape a = s" "shape b = s" "wf_tensor a" "wf_tensor b"
  shows "tbin f a b = Inr \<lparr>shape = s, dat = map2 f (dat a) (dat b)\<rparr>"
  using assms
  by (simp add: tbin_def broadcast_shape_same bcast_def expand_same wf_tensor_def)

lemma bcast_row:
  assumes "length xs = m"
  shows "bcast [m] [n, m] xs = concat (replicate n xs)"
    and "bcast [1, m] [n, m] xs = concat (replicate n xs)"
proof -
  have e: "expand [m] [m] xs = xs" using assms by (simp add: expand_same del: expand.simps)
  have "expand [1, m] [n, m] xs = concat (replicate n xs)"
  proof (cases "n = 1")
    case True
    then show ?thesis using assms by (simp add: expand_same del: expand.simps)
  next
    case False
    then have "expand [1, m] [n, m] xs = concat (replicate n (expand [m] [m] xs))"
      by (subst expand.simps) (simp del: expand.simps)
    then show ?thesis by (simp only: e)
  qed
  then show "bcast [m] [n, m] xs = concat (replicate n xs)"
    and "bcast [1, m] [n, m] xs = concat (replicate n xs)"
    by (simp_all add: bcast_def)
qed

lemma tbin_row:
  assumes "shape a = [n, m]" "wf_tensor a" "shape b = [m] \<or> shape b = [1, m]" "wf_tensor b"
  shows "tbin f a b = Inr \<lparr>shape = [n, m], dat = map2 f (dat a) (concat (replicate n (dat b)))\<rparr>"
proof -
  have la: "length (dat a) = prod_list [n, m]" and lb: "length (dat b) = m"
    using assms by (auto simp: wf_tensor_def)
  have bs: "broadcast_shape [n, m] (shape b) = Some [n, m]"
    using assms(3) by (auto simp: broadcast_shape_def)
  have "bcast [n, m] [n, m] (dat a) = dat a"
    using la by (simp add: bcast_def expand_same del: expand.simps)
  moreover have "bcast (shape b) [n, m] (dat b) = concat (replicate n (dat b))"
    using assms(3) bcast_row[OF lb] by auto
  ultimately show ?thesis using assms(1) bs by (simp add: tbin_def)
qed

subsection \<open>Tables\<close>

lemma length_tab: "length (tab n m f) = n * m"
  by (simp add: tab_def length_concat comp_def sum_list_triv)

lemma tab_cong: "(\<And>i j. i < n \<Longrightarrow> j < m \<Longrightarrow> f i j = g i j) \<Longrightarrow> tab n m f = tab n m g"
  unfolding tab_def by (intro arg_cong[where f = concat] map_cong) auto

lemma map_tab: "map h (tab n m f) = tab n m (\<lambda>i j. h (f i j))"
  by (simp add: tab_def map_concat comp_def)

lemma map2_concat_map:
  "(\<And>i. i \<in> set is \<Longrightarrow> length (F i) = length (G i)) \<Longrightarrow>
   map2 h (concat (map F is)) (concat (map G is)) = concat (map (\<lambda>i. map2 h (F i) (G i)) is)"
  by (induction "is") simp_all

lemma map2_map_same: "map2 h (map f xs) (map g xs) = map (\<lambda>x. h (f x) (g x)) xs"
  by (induction xs) simp_all

lemma map2_tab: "map2 h (tab n m f) (tab n m g) = tab n m (\<lambda>i j. h (f i j) (g i j))"
proof -
  have "map2 h (map (f i) [0..<m]) (map (g i) [0..<m]) = map (\<lambda>j. h (f i j) (g i j)) [0..<m]" for i
    by (rule map2_map_same)
  then show ?thesis unfolding tab_def by (subst map2_concat_map) simp_all
qed

lemma replicate_tab: "length xs = m \<Longrightarrow> concat (replicate n xs) = tab n m (\<lambda>i j. xs ! j)"
proof -
  assume "length xs = m"
  then have "map ((!) xs) [0..<m] = xs" by (auto simp: map_nth)
  then show ?thesis by (simp add: tab_def map_replicate_const)
qed

lemma list_as_tab:
  assumes "length xs = n * m"
  shows "xs = tab n m (\<lambda>i j. xs ! (i * m + j))"
proof -
  have "take m (drop (i * m) xs) = map (\<lambda>j. xs ! (i * m + j)) [0..<m]" if "i < n" for i
  proof -
    from that have "Suc i \<le> n" by simp
    then have "Suc i * m \<le> n * m" by (rule mult_le_mono1)
    then have le: "i * m + m \<le> length xs" using assms by simp
    then have len: "length (take m (drop (i * m) xs)) = m" by simp
    show ?thesis
    proof (rule nth_equalityI)
      show "length (take m (drop (i * m) xs)) = length (map (\<lambda>j. xs ! (i * m + j)) [0..<m])"
        using len by simp
      fix j assume "j < length (take m (drop (i * m) xs))"
      then have "j < m" using len by simp
      then show "take m (drop (i * m) xs) ! j = map (\<lambda>j. xs ! (i * m + j)) [0..<m] ! j"
        using le by simp
    qed
  qed
  then have m: "map (\<lambda>i. take m (drop (i * m) xs)) [0..<n]
      = map (\<lambda>i. map (\<lambda>j. xs ! (i * m + j)) [0..<m]) [0..<n]"
    by (intro map_cong) auto
  have "xs = concat (map (\<lambda>i. take m (drop (i * m) xs)) [0..<n])"
    by (rule concat_chunks[OF assms, symmetric])
  also have "\<dots> = tab n m (\<lambda>i j. xs ! (i * m + j))"
    unfolding tab_def by (simp only: m)
  finally show ?thesis .
qed

lemma index_bound: "i < n \<Longrightarrow> j < m \<Longrightarrow> i * m + j < n * (m::nat)"
proof -
  assume "i < n" "j < m"
  then have "i * m + j < Suc i * m" by simp
  also have "\<dots> \<le> n * m" using \<open>i < n\<close> by (intro mult_le_mono1) simp
  finally show ?thesis .
qed

lemma el_in_range: "i < length (dat t) \<Longrightarrow> el t i = dat t ! i"
  by (simp add: el_def)

lemma tab_nth: "i < n \<Longrightarrow> j < m \<Longrightarrow> tab n m f ! (i * m + j) = f i j"
proof (induction n)
  case 0
  then show ?case by simp
next
  case (Suc n)
  have app: "tab (Suc n) m f = tab n m f @ map (f n) [0..<m]" by (simp add: tab_def)
  show ?case
  proof (cases "i < n")
    case True
    then have "i * m + j < length (tab n m f)"
      using Suc.prems(2) by (simp add: length_tab index_bound)
    then show ?thesis using Suc.IH[OF True Suc.prems(2)] by (simp add: app nth_append)
  next
    case False
    with Suc.prems(1) have "i = n" by simp
    then show ?thesis using Suc.prems(2) by (simp add: app nth_append length_tab)
  qed
qed

lemma wf_table: "wf_tensor \<lparr>shape = [n, m], dat = tab n m f\<rparr>"
  by (simp add: wf_tensor_def length_tab)

lemma tbin_tab:
  "tbin h \<lparr>shape = [n, m], dat = tab n m f\<rparr> \<lparr>shape = [n, m], dat = tab n m g\<rparr>
     = Inr \<lparr>shape = [n, m], dat = tab n m (\<lambda>i j. h (f i j) (g i j))\<rparr>"
  by (simp add: tbin_same[OF _ _ wf_table wf_table] map2_tab)

lemma tbin_tab_row:
  assumes "shape b = [m] \<or> shape b = [1, m]" "wf_tensor b"
  shows "tbin h \<lparr>shape = [n, m], dat = tab n m f\<rparr> b
     = Inr \<lparr>shape = [n, m], dat = tab n m (\<lambda>i j. h (f i j) (dat b ! j))\<rparr>"
proof -
  have "length (dat b) = m" using assms by (auto simp: wf_tensor_def)
  then show ?thesis
    by (simp add: tbin_row[OF _ wf_table assms] replicate_tab map2_tab)
qed

lemma tensor_as_table:
  assumes "shape t = [n, m]" "wf_tensor t"
  shows "t = \<lparr>shape = [n, m], dat = tab n m (\<lambda>i j. dat t ! (i * m + j))\<rparr>"
proof -
  have "length (dat t) = n * m" using assms by (simp add: wf_tensor_def)
  from list_as_tab[OF this] assms(1) show ?thesis by simp
qed

lemma matmul_table:
  assumes "shape w = [k, m]" "wf_tensor w"
  shows "matmul \<lparr>shape = [n, k], dat = tab n k f\<rparr> w
     = Inr \<lparr>shape = [n, m], dat = tab n m (\<lambda>i j. \<Sum>q\<leftarrow>[0..<k]. f i q * dat w ! (q * m + j))\<rparr>"
proof -
  have lw: "length (dat w) = k * m" using assms by (simp add: wf_tensor_def)
  have "(\<Sum>q\<leftarrow>[0..<k]. el \<lparr>shape = [n, k], dat = tab n k f\<rparr> (i * k + q) * el w (q * m + j))
      = (\<Sum>q\<leftarrow>[0..<k]. f i q * dat w ! (q * m + j))" if "i < n" "j < m" for i j
  proof (rule arg_cong[where f = sum_list], rule map_cong[OF refl])
    fix q assume "q \<in> set [0..<k]"
    then have q: "q < k" by simp
    have 1: "el \<lparr>shape = [n, k], dat = tab n k f\<rparr> (i * k + q) = tab n k f ! (i * k + q)"
      using index_bound[OF \<open>i < n\<close> q] by (simp add: el_def length_tab)
    have 2: "el w (q * m + j) = dat w ! (q * m + j)"
      using index_bound[OF q \<open>j < m\<close>] lw by (simp add: el_def)
    have 3: "tab n k f ! (i * k + q) = f i q"
      using \<open>i < n\<close> q by (rule tab_nth)
    show "el \<lparr>shape = [n, k], dat = tab n k f\<rparr> (i * k + q) * el w (q * m + j)
        = f i q * dat w ! (q * m + j)"
      by (simp only: 1 2 3)
  qed
  then have "tab n m (\<lambda>i j. \<Sum>q\<leftarrow>[0..<k]. el \<lparr>shape = [n, k], dat = tab n k f\<rparr> (i * k + q)
                                   * el w (q * m + j))
      = tab n m (\<lambda>i j. \<Sum>q\<leftarrow>[0..<k]. f i q * dat w ! (q * m + j))"
    by (rule tab_cong)
  then show ?thesis using assms(1) by (simp add: matmul_def)
qed

subsection \<open>The affine layers on tables\<close>

lemma matmul_table_abs:
  assumes "shape w = [k, m]" "wf_tensor w"
  shows "matmul \<lparr>shape = [n, k], dat = tab n k f\<rparr> (tabs w)
     = Inr \<lparr>shape = [n, m], dat = tab n m (\<lambda>i j. \<Sum>q\<leftarrow>[0..<k]. f i q * \<bar>dat w ! (q * m + j)\<bar>)\<rparr>"
proof -
  have lw: "length (dat w) = k * m" using assms by (simp add: wf_tensor_def)
  have sh: "shape (tabs w) = [k, m]" and wf: "wf_tensor (tabs w)"
    using assms by (simp_all add: tabs_def tmap_def wf_tensor_def)
  have "(\<Sum>q\<leftarrow>[0..<k]. f i q * dat (tabs w) ! (q * m + j))
      = (\<Sum>q\<leftarrow>[0..<k]. f i q * \<bar>dat w ! (q * m + j)\<bar>)" if "j < m" for i j
  proof (rule arg_cong[where f = sum_list], rule map_cong[OF refl])
    fix q assume "q \<in> set [0..<k]"
    then have "q * m + j < length (dat w)" using index_bound[of q k j m] that lw by simp
    then show "f i q * dat (tabs w) ! (q * m + j) = f i q * \<bar>dat w ! (q * m + j)\<bar>"
      by (simp add: tabs_def tmap_def)
  qed
  then have "tab n m (\<lambda>i j. \<Sum>q\<leftarrow>[0..<k]. f i q * dat (tabs w) ! (q * m + j))
      = tab n m (\<lambda>i j. \<Sum>q\<leftarrow>[0..<k]. f i q * \<bar>dat w ! (q * m + j)\<bar>)"
    by (intro tab_cong)
  then show ?thesis by (simp add: matmul_table[OF sh wf])
qed

lemma thalf_table:
  "thalf \<lparr>shape = [n, m], dat = tab n m f\<rparr> = \<lparr>shape = [n, m], dat = tab n m (\<lambda>i j. f i j / 2)\<rparr>"
  by (simp add: thalf_def tmap_def map_tab)

lemma linear_formula:
  assumes "shape l = [n, k]" "shape u = [n, k]" "wf_tensor l" "wf_tensor u"
    and "shape w = [k, m]" "wf_tensor w"
    and "\<forall>b'. b = Some b' \<longrightarrow> shape b' = [m] \<and> wf_tensor b'"
  shows "IntervalBounds_linear \<lparr>lower = Tensor l, upper = Tensor u\<rparr> w b
     = Inr \<lparr>lower = Tensor (table2 n m (\<lambda>i j. linear_center l u w b k m i j
                                                 - linear_radius l u w k m i j)),
            upper = Tensor (table2 n m (\<lambda>i j. linear_center l u w b k m i j
                                                 + linear_radius l u w k m i j))\<rparr>"
proof -
  define L where "L i q = dat l ! (i * k + q)" for i q
  define U where "U i q = dat u ! (i * k + q)" for i q
  define C where "C i j = (\<Sum>q\<leftarrow>[0..<k]. (L i q + U i q) / 2 * dat w ! (q * m + j))" for i j
  define R where "R i j = (\<Sum>q\<leftarrow>[0..<k]. (U i q - L i q) / 2 * \<bar>dat w ! (q * m + j)\<bar>)" for i j
  define B where "B j = (case b of None \<Rightarrow> 0 | Some b' \<Rightarrow> dat b' ! j)" for j
  have l: "l = \<lparr>shape = [n, k], dat = tab n k L\<rparr>"
    unfolding L_def using assms(1,3) by (rule tensor_as_table)
  have u: "u = \<lparr>shape = [n, k], dat = tab n k U\<rparr>"
    unfolding U_def using assms(2,4) by (rule tensor_as_table)
  have s: "tadd l u = Inr \<lparr>shape = [n, k], dat = tab n k (\<lambda>i q. L i q + U i q)\<rparr>"
    by (subst l, subst u) (simp add: tadd_def tbin_tab)
  have d: "tsub u l = Inr \<lparr>shape = [n, k], dat = tab n k (\<lambda>i q. U i q - L i q)\<rparr>"
    by (subst l, subst u) (simp add: tsub_def tbin_tab)
  have c: "matmul (thalf \<lparr>shape = [n, k], dat = tab n k (\<lambda>i q. L i q + U i q)\<rparr>) w
      = Inr \<lparr>shape = [n, m], dat = tab n m C\<rparr>"
    unfolding C_def by (simp add: thalf_table matmul_table[OF assms(5,6)])
  have r: "matmul (thalf \<lparr>shape = [n, k], dat = tab n k (\<lambda>i q. U i q - L i q)\<rparr>) (tabs w)
      = Inr \<lparr>shape = [n, m], dat = tab n m R\<rparr>"
    unfolding R_def by (simp add: thalf_table matmul_table_abs[OF assms(5,6)])
  have c': "add_bias \<lparr>shape = [n, m], dat = tab n m C\<rparr> b
      = Inr \<lparr>shape = [n, m], dat = tab n m (\<lambda>i j. C i j + B j)\<rparr>"
  proof (cases b)
    case None
    then show ?thesis by (simp add: add_bias_def B_def)
  next
    case (Some b')
    with assms(7) have "shape b' = [m] \<or> shape b' = [1, m]" "wf_tensor b'" by auto
    from tbin_tab_row[OF this] Some show ?thesis by (simp add: add_bias_def B_def tadd_def)
  qed
  have cr: "center_radius \<lparr>shape = [n, m], dat = tab n m (\<lambda>i j. C i j + B j)\<rparr>
              \<lparr>shape = [n, m], dat = tab n m R\<rparr>
      = Inr \<lparr>lower = Tensor \<lparr>shape = [n, m], dat = tab n m (\<lambda>i j. C i j + B j - R i j)\<rparr>,
             upper = Tensor \<lparr>shape = [n, m], dat = tab n m (\<lambda>i j. C i j + B j + R i j)\<rparr>\<rparr>"
    by (simp add: center_radius_def tsub_def tadd_def tbin_tab)
  have "IntervalBounds_linear \<lparr>lower = Tensor l, upper = Tensor u\<rparr> w b
      = Inr \<lparr>lower = Tensor \<lparr>shape = [n, m], dat = tab n m (\<lambda>i j. C i j + B j - R i j)\<rparr>,
             upper = Tensor \<lparr>shape = [n, m], dat = tab n m (\<lambda>i j. C i j + B j + R i j)\<rparr>\<rparr>"
    by (simp add: IntervalBounds_linear_def ensure_singleton_def s d c r c' cr)
  moreover have "linear_center l u w b k m i j = C i j + B j" for i j
    by (simp add: linear_center_def C_def L_def U_def B_def)
  moreover have "linear_radius l u w k m i j = R i j" for i j
    by (simp add: linear_radius_def R_def L_def U_def)
  ultimately show ?thesis by (simp add: table2_def)
qed

lemma row_nth: "j < m \<Longrightarrow> tab 1 m g ! j = g 0 j"
  using tab_nth[of 0 1 j m g] by simp

lemma wf_row: "sb = [m] \<or> sb = [1, m] \<Longrightarrow> wf_tensor \<lparr>shape = sb, dat = tab 1 m g\<rparr>"
  by (auto simp: wf_tensor_def length_tab)

lemma tbin_tab_rowtab:
  assumes "sb = [m] \<or> sb = [1, m]"
  shows "tbin h \<lparr>shape = [n, m], dat = tab n m f\<rparr> \<lparr>shape = sb, dat = tab 1 m g\<rparr>
     = Inr \<lparr>shape = [n, m], dat = tab n m (\<lambda>i j. h (f i j) (g 0 j))\<rparr>"
proof -
  have "tab n m (\<lambda>i j. h (f i j) (tab 1 m g ! j)) = tab n m (\<lambda>i j. h (f i j) (g 0 j))"
    by (rule tab_cong) (simp add: row_nth del: One_nat_def)
  then show ?thesis
    using tbin_tab_row[of "\<lparr>shape = sb, dat = tab 1 m g\<rparr>" m h n f] assms wf_row[OF assms]
    by (simp del: One_nat_def)
qed

lemma row_as_table:
  assumes "shape t = [1, m]" "wf_tensor t"
  shows "t = \<lparr>shape = [1, m], dat = tab 1 m (\<lambda>i j. dat t ! j)\<rparr>"
proof -
  have "tab 1 m (\<lambda>i j. dat t ! (i * m + j)) = tab 1 m (\<lambda>i j. dat t ! j)"
    by (rule tab_cong) simp
  with tensor_as_table[OF assms] show ?thesis by simp
qed

lemma bn_multiplier_table:
  assumes "shape variance = [1, m]" "wf_tensor variance"
    and "\<forall>s. scale = Some s \<longrightarrow> shape s = [1, m] \<and> wf_tensor s"
  shows "bn_multiplier variance scale epsilon
     = Inr \<lparr>shape = [1, m], dat = tab 1 m (\<lambda>i j. fold_multiplier variance scale epsilon j)\<rparr>"
proof -
  have v: "trsqrt (tadd_scalar variance epsilon)
      = \<lparr>shape = [1, m], dat = tab 1 m (\<lambda>i j. 1 / sqrt (dat variance ! j + epsilon))\<rparr>"
    by (subst row_as_table[OF assms(1,2)]) (simp add: trsqrt_def tadd_scalar_def tmap_def map_tab del: One_nat_def)
  show ?thesis
  proof (cases scale)
    case None
    then show ?thesis by (simp add: bn_multiplier_def v fold_multiplier_def del: One_nat_def)
  next
    case (Some s)
    with assms(3) have s: "s = \<lparr>shape = [1, m], dat = tab 1 m (\<lambda>i j. dat s ! j)\<rparr>"
      by (intro row_as_table) auto
    have "tmul (trsqrt (tadd_scalar variance epsilon)) s
        = Inr \<lparr>shape = [1, m],
               dat = tab 1 m (\<lambda>i j. 1 / sqrt (dat variance ! j + epsilon) * (dat s ! j))\<rparr>"
      unfolding v by (subst s) (simp add: tmul_def tbin_tab del: One_nat_def)
    with Some show ?thesis by (simp add: bn_multiplier_def fold_multiplier_def del: One_nat_def)
  qed
qed

lemma bn_bias_table:
  assumes "shape mean = [1, m]" "wf_tensor mean"
    and "\<forall>b. bias = Some b \<longrightarrow> shape b = [1, m] \<and> wf_tensor b"
  shows "bn_bias \<lparr>shape = [1, m], dat = tab 1 m (\<lambda>i j. M j)\<rparr> mean bias
     = Inr \<lparr>shape = [1, m],
            dat = tab 1 m (\<lambda>i j. - M j * dat mean ! j
                                  + (case bias of None \<Rightarrow> 0 | Some b \<Rightarrow> dat b ! j))\<rparr>"
proof -
  have n: "tneg \<lparr>shape = [1, m], dat = tab 1 m (\<lambda>i j. M j)\<rparr>
      = \<lparr>shape = [1, m], dat = tab 1 m (\<lambda>i j. - M j)\<rparr>"
    by (simp add: tneg_def tmap_def map_tab del: One_nat_def)
  have p: "tmul (tneg \<lparr>shape = [1, m], dat = tab 1 m (\<lambda>i j. M j)\<rparr>) mean
      = Inr \<lparr>shape = [1, m], dat = tab 1 m (\<lambda>i j. - M j * dat mean ! j)\<rparr>"
    unfolding n by (subst row_as_table[OF assms(1,2)]) (simp add: tmul_def tbin_tab del: One_nat_def)
  show ?thesis
  proof (cases bias)
    case None
    then show ?thesis by (simp add: bn_bias_def p del: One_nat_def)
  next
    case (Some b)
    with assms(3) have b: "b = \<lparr>shape = [1, m], dat = tab 1 m (\<lambda>i j. dat b ! j)\<rparr>"
      by (intro row_as_table) auto
    have "tadd \<lparr>shape = [1, m], dat = tab 1 m (\<lambda>i j. - M j * dat mean ! j)\<rparr> b
        = Inr \<lparr>shape = [1, m], dat = tab 1 m (\<lambda>i j. - M j * dat mean ! j + dat b ! j)\<rparr>"
      by (subst b) (simp add: tadd_def tbin_tab del: One_nat_def)
    with Some show ?thesis by (simp add: bn_bias_def p del: One_nat_def)
  qed
qed

lemma batch_norm_formula:
  assumes "shape l = [n, m]" "shape u = [n, m]" "wf_tensor l" "wf_tensor u"
    and "shape mean = [1, m]" "wf_tensor mean" "shape variance = [1, m]" "wf_tensor variance"
    and "\<forall>s. scale = Some s \<longrightarrow> shape s = [1, m] \<and> wf_tensor s"
    and "\<forall>b. bias = Some b \<longrightarrow> shape b = [1, m] \<and> wf_tensor b"
  shows "IntervalBounds_batch_norm \<lparr>lower = Tensor l, upper = Tensor u\<rparr>
             mean variance scale bias epsilon
     = Inr \<lparr>lower = Tensor (table2 n m (\<lambda>i j.
                (dat l ! (i * m + j) + dat u ! (i * m + j)) / 2
                  * fold_multiplier variance scale epsilon j
                + fold_bias_term mean variance scale bias epsilon j
                - (dat u ! (i * m + j) - dat l ! (i * m + j)) / 2
                  * \<bar>fold_multiplier variance scale epsilon j\<bar>)),
            upper = Tensor (table2 n m (\<lambda>i j.
                (dat l ! (i * m + j) + dat u ! (i * m + j)) / 2
                  * fold_multiplier variance scale epsilon j
                + fold_bias_term mean variance scale bias epsilon j
                + (dat u ! (i * m + j) - dat l ! (i * m + j)) / 2
                  * \<bar>fold_multiplier variance scale epsilon j\<bar>))\<rparr>"
proof -
  define L where "L i j = dat l ! (i * m + j)" for i j
  define U where "U i j = dat u ! (i * m + j)" for i j
  define M where "M = fold_multiplier variance scale epsilon"
  define B where "B = fold_bias_term mean variance scale bias epsilon"
  have l: "l = \<lparr>shape = [n, m], dat = tab n m L\<rparr>"
    unfolding L_def using assms(1,3) by (rule tensor_as_table)
  have u: "u = \<lparr>shape = [n, m], dat = tab n m U\<rparr>"
    unfolding U_def using assms(2,4) by (rule tensor_as_table)
  have w: "bn_multiplier variance scale epsilon
      = Inr \<lparr>shape = [1, m], dat = tab 1 m (\<lambda>i j. M j)\<rparr>"
    unfolding M_def by (rule bn_multiplier_table[OF assms(7,8,9)])
  have b0: "bn_bias \<lparr>shape = [1, m], dat = tab 1 m (\<lambda>i j. M j)\<rparr> mean bias
      = Inr \<lparr>shape = [1, m], dat = tab 1 m (\<lambda>i j. B j)\<rparr>"
    unfolding B_def fold_bias_term_def M_def[symmetric]
    by (rule bn_bias_table[OF assms(5,6,10)])
  have sq: "squeeze0 \<lparr>shape = [1, m], dat = tab 1 m (\<lambda>i j. B j)\<rparr>
      = Inr \<lparr>shape = [m], dat = tab 1 m (\<lambda>i j. B j)\<rparr>"
    by (simp add: squeeze0_def del: One_nat_def)
  have s: "tadd l u = Inr \<lparr>shape = [n, m], dat = tab n m (\<lambda>i j. L i j + U i j)\<rparr>"
    by (subst l, subst u) (simp add: tadd_def tbin_tab del: One_nat_def)
  have d: "tsub u l = Inr \<lparr>shape = [n, m], dat = tab n m (\<lambda>i j. U i j - L i j)\<rparr>"
    by (subst l, subst u) (simp add: tsub_def tbin_tab del: One_nat_def)
  have cw: "tmul (thalf \<lparr>shape = [n, m], dat = tab n m (\<lambda>i j. L i j + U i j)\<rparr>)
                \<lparr>shape = [1, m], dat = tab 1 m (\<lambda>i j. M j)\<rparr>
      = Inr \<lparr>shape = [n, m], dat = tab n m (\<lambda>i j. (L i j + U i j) / 2 * M j)\<rparr>"
    by (simp add: thalf_table tmul_def tbin_tab_rowtab del: One_nat_def)
  have c: "tadd \<lparr>shape = [n, m], dat = tab n m (\<lambda>i j. (L i j + U i j) / 2 * M j)\<rparr>
                \<lparr>shape = [m], dat = tab 1 m (\<lambda>i j. B j)\<rparr>
      = Inr \<lparr>shape = [n, m], dat = tab n m (\<lambda>i j. (L i j + U i j) / 2 * M j + B j)\<rparr>"
    by (simp add: tadd_def tbin_tab_rowtab del: One_nat_def)
  have r: "tmul (thalf \<lparr>shape = [n, m], dat = tab n m (\<lambda>i j. U i j - L i j)\<rparr>)
                (tabs \<lparr>shape = [1, m], dat = tab 1 m (\<lambda>i j. M j)\<rparr>)
      = Inr \<lparr>shape = [n, m], dat = tab n m (\<lambda>i j. (U i j - L i j) / 2 * \<bar>M j\<bar>)\<rparr>"
    by (simp add: thalf_table tmul_def tabs_def tmap_def map_tab tbin_tab_rowtab del: One_nat_def)
  have cr: "center_radius
              \<lparr>shape = [n, m], dat = tab n m (\<lambda>i j. (L i j + U i j) / 2 * M j + B j)\<rparr>
              \<lparr>shape = [n, m], dat = tab n m (\<lambda>i j. (U i j - L i j) / 2 * \<bar>M j\<bar>)\<rparr>
      = Inr \<lparr>lower = Tensor \<lparr>shape = [n, m], dat = tab n m (\<lambda>i j.
                 (L i j + U i j) / 2 * M j + B j - (U i j - L i j) / 2 * \<bar>M j\<bar>)\<rparr>,
             upper = Tensor \<lparr>shape = [n, m], dat = tab n m (\<lambda>i j.
                 (L i j + U i j) / 2 * M j + B j + (U i j - L i j) / 2 * \<bar>M j\<bar>)\<rparr>\<rparr>"
    by (simp add: center_radius_def tsub_def tadd_def tbin_tab del: One_nat_def)
  show ?thesis
    unfolding L_def[symmetric] U_def[symmetric] M_def[symmetric] B_def[symmetric]
    by (simp only: IntervalBounds_batch_norm_def ensure_singleton_def
        IntervalBounds.select_convs bval.case prod.case sum.case w b0 sq s d cw c r cr
        table2_def)
qed

subsection \<open>The leading axis of a broadcast\<close>










subsection \<open>A multiplier without the leading axis\<close>







subsection \<open>Programs on the heap\<close>

lemma pure_ret: "pure_prog (ret x)"
  and pure_raise: "pure_prog (raise e)"
  and pure_lift: "pure_prog (lift r)"
  and pure_getattr_lower: "pure_prog (getattr_lower a)"
  and pure_getattr_upper: "pure_prog (getattr_upper a)"
  by (simp_all add: pure_prog_def ret_def raise_def lift_def getattr_lower_def
      getattr_upper_def split: option.splits)

lemma pure_seq: "pure_prog p \<Longrightarrow> (\<And>x. pure_prog (f x)) \<Longrightarrow> pure_prog (seq p f)"
  unfolding pure_prog_def seq_def
proof
  fix h
  assume p: "\<forall>h. snd (p h) = h" and f: "\<And>x. \<forall>h. snd (f x h) = h"
  obtain r h' where ph: "p h = (r, h')" by (cases "p h")
  with p have h': "h' = h" by (metis snd_conv)
  show "snd (case p h of (Inl e, h') \<Rightarrow> (Inl e, h') | (Inr x, h') \<Rightarrow> f x h') = h"
    using ph h' f by (cases r) simp_all
qed

lemma pure_tensor_of: "pure_prog (tensor_of v)"
  and pure_tuple_of: "pure_prog (tuple_of v)"
  by (cases v; simp add: pure_ret pure_raise)+

lemma pure_lower_tensor: "pure_prog (lower_tensor a)"
  and pure_upper_tensor: "pure_prog (upper_tensor a)"
  by (simp_all add: lower_tensor_def upper_tensor_def pure_seq pure_getattr_lower
      pure_getattr_upper pure_tensor_of)

lemma pure_ensure_singleton: "pure_prog (ensure_singleton_prog a)"
  unfolding ensure_singleton_prog_def
  by (intro pure_seq pure_getattr_lower pure_getattr_upper)
     (simp_all add: pure_raise pure_ret pure_seq pure_getattr_upper)

lemma allocating_new: "allocating (IntervalBounds_new lo up)"
  by (simp add: allocating_def IntervalBounds_new_def IntervalBounds_init_def seq_def
      new_object_def setattr_lower_def setattr_upper_def ret_def)

lemma allocating_raise: "allocating (raise e)"
  by (simp add: allocating_def raise_def)

lemma allocating_seq: "pure_prog p \<Longrightarrow> (\<And>x. allocating (f x)) \<Longrightarrow> allocating (seq p f)"
  unfolding allocating_def seq_def pure_prog_def
proof
  fix h
  assume p: "\<forall>h. snd (p h) = h"
    and f: "\<And>x. \<forall>h. case f x h of (Inl e, h') \<Rightarrow> h' = h
                        | (Inr a, h') \<Rightarrow> a = length h \<and> (\<exists>ob. h' = h @ [ob])"
  obtain r h' where ph: "p h = (r, h')" by (cases "p h")
  with p have h': "h' = h" by (metis snd_conv)
  show "case (case p h of (Inl e, h') \<Rightarrow> (Inl e, h') | (Inr x, h') \<Rightarrow> f x h') of
          (Inl e, h') \<Rightarrow> h' = h
        | (Inr a, h') \<Rightarrow> a = length h \<and> (\<exists>ob. h' = h @ [ob])"
    using ph h' f by (cases r) simp_all
qed

lemma allocating_linear: "allocating (linear_prog self w b)"
  unfolding linear_prog_def
  by (intro allocating_seq allocating_new pure_ensure_singleton pure_lower_tensor
      pure_upper_tensor pure_lift)

lemma allocating_conv2d: "allocating (conv2d_prog self w b pad strides)"
  unfolding conv2d_prog_def
  by (intro allocating_seq allocating_new pure_ensure_singleton pure_lower_tensor
      pure_upper_tensor pure_lift)

lemma allocating_batch_norm:
  "allocating (batch_norm_prog self mean variance scale bias epsilon)"
  unfolding batch_norm_prog_def
  by (intro allocating_seq allocating_new pure_ensure_singleton pure_lower_tensor
      pure_upper_tensor pure_lift)

lemma allocating_batch_flatten: "allocating (batch_flatten_prog self)"
  unfolding batch_flatten_prog_def
  by (intro allocating_seq allocating_new pure_ensure_singleton pure_lower_tensor
      pure_upper_tensor pure_lift)

lemma allocating_if:
  "(c \<Longrightarrow> allocating p) \<Longrightarrow> (\<not> c \<Longrightarrow> allocating q) \<Longrightarrow> allocating (if c then p else q)"
  by simp

lemma allocating_monotonic_fn: "allocating (monotonic_fn_prog self fn)"
  unfolding monotonic_fn_prog_def
  by (intro allocating_seq allocating_if allocating_new allocating_raise pure_seq
      pure_ensure_singleton pure_lower_tensor pure_upper_tensor pure_lift
      pure_getattr_lower pure_getattr_upper pure_tuple_of)

lemma allocating_combine_with: "allocating (combine_with_prog self bounds)"
  unfolding combine_with_prog_def
  by (cases bounds; simp only: ref_arg.case)
     (intro allocating_seq allocating_if allocating_new allocating_raise pure_seq
      pure_ensure_singleton pure_lower_tensor pure_upper_tensor pure_lift
      pure_getattr_lower pure_getattr_upper pure_tuple_of)+

lemma allocating_propagate_through: "allocating (propagate_through_prog self wrapper)"
  unfolding propagate_through_prog_def
  by (cases wrapper)
     (simp_all add: allocating_linear allocating_conv2d allocating_monotonic_fn
      allocating_batch_norm allocating_batch_flatten allocating_raise)

lemma object_value_reads:
  assumes "object_value h a = Some v"
  shows "getattr_lower a h = (Inr (lower v), h)" and "getattr_upper a h = (Inr (upper v), h)"
  using assms
  by (auto simp: object_value_def getattr_lower_def getattr_upper_def
      split: if_splits option.splits)

lemma new_stored:
  "IntervalBounds_new lo up h = stored h (Inr \<lparr>lower = lo, upper = up\<rparr>)"
  by (simp add: IntervalBounds_new_def IntervalBounds_init_def seq_def new_object_def
      setattr_lower_def setattr_upper_def ret_def stored_def)

lemma linear_prog_refines:
  assumes "object_value h self = Some v"
  shows "linear_prog self w b h = stored h (IntervalBounds_linear v w b)"
proof (cases "lower v"; cases "upper v")
  fix l u assume "lower v = Tensor l" "upper v = Tensor u"
  then show ?thesis
    using object_value_reads[OF assms]
    by (simp add: linear_prog_def IntervalBounds_linear_def ensure_singleton_prog_def
        ensure_singleton_def lower_tensor_def upper_tensor_def center_radius_def seq_def
        ret_def lift_def new_stored stored_def split: sum.splits)
qed (use object_value_reads[OF assms] in
      \<open>simp_all add: linear_prog_def IntervalBounds_linear_def ensure_singleton_prog_def
        ensure_singleton_def seq_def raise_def stored_def\<close>)

lemma conv2d_prog_refines:
  assumes "object_value h self = Some v"
  shows "conv2d_prog self w b pad strides h = stored h (IntervalBounds_conv2d v w b pad strides)"
proof (cases "lower v"; cases "upper v")
  fix l u assume "lower v = Tensor l" "upper v = Tensor u"
  then show ?thesis
    using object_value_reads[OF assms]
    by (simp add: conv2d_prog_def IntervalBounds_conv2d_def ensure_singleton_prog_def
        ensure_singleton_def lower_tensor_def upper_tensor_def center_radius_def seq_def
        ret_def lift_def new_stored stored_def split: sum.splits)
qed (use object_value_reads[OF assms] in
      \<open>simp_all add: conv2d_prog_def IntervalBounds_conv2d_def ensure_singleton_prog_def
        ensure_singleton_def seq_def raise_def stored_def\<close>)

lemma batch_norm_prog_refines:
  assumes "object_value h self = Some v"
  shows "batch_norm_prog self mean variance scale bias epsilon h
     = stored h (IntervalBounds_batch_norm v mean variance scale bias epsilon)"
proof (cases "lower v"; cases "upper v")
  fix l u assume "lower v = Tensor l" "upper v = Tensor u"
  then show ?thesis
    using object_value_reads[OF assms]
    by (simp add: batch_norm_prog_def IntervalBounds_batch_norm_def ensure_singleton_prog_def
        ensure_singleton_def lower_tensor_def upper_tensor_def center_radius_def seq_def
        ret_def lift_def new_stored stored_def split: sum.splits)
qed (use object_value_reads[OF assms] in
      \<open>simp_all add: batch_norm_prog_def IntervalBounds_batch_norm_def
        ensure_singleton_prog_def ensure_singleton_def seq_def raise_def stored_def\<close>)

lemma batch_flatten_prog_refines:
  assumes "object_value h self = Some v"
  shows "batch_flatten_prog self h = stored h (IntervalBounds_batch_flatten v)"
proof (cases "lower v"; cases "upper v")
  fix l u assume "lower v = Tensor l" "upper v = Tensor u"
  then show ?thesis
    using object_value_reads[OF assms]
    by (simp add: batch_flatten_prog_def IntervalBounds_batch_flatten_def
        ensure_singleton_prog_def ensure_singleton_def lower_tensor_def upper_tensor_def
        seq_def ret_def lift_def new_stored stored_def split: sum.splits)
qed (use object_value_reads[OF assms] in
      \<open>simp_all add: batch_flatten_prog_def IntervalBounds_batch_flatten_def
        ensure_singleton_prog_def ensure_singleton_def seq_def raise_def stored_def\<close>)

lemma monotonic_fn_prog_refines:
  assumes "object_value h self = Some v"
  shows "monotonic_fn_prog self fn h = stored h (IntervalBounds_monotonic_fn v fn)"
  using object_value_reads[OF assms]
  by (cases "lower v"; cases "upper v")
     (simp_all add: monotonic_fn_prog_def IntervalBounds_monotonic_fn_def
       ensure_singleton_prog_def ensure_singleton_def lower_tensor_def upper_tensor_def
       seq_def ret_def raise_def lift_def new_stored stored_def split: sum.splits)

lemma combine_with_prog_refines:
  assumes "object_value h self = Some v" "object_value h other = Some ov"
  shows "combine_with_prog self (Ref other) h = stored h (combine_with v (Interval ov))"
  using object_value_reads[OF assms(1)] object_value_reads[OF assms(2)]
  by (cases "lower v"; cases "upper v"; cases "lower ov"; cases "upper ov")
     (simp_all add: combine_with_prog_def combine_with_def ensure_singleton_prog_def
       ensure_singleton_def lower_tensor_def upper_tensor_def seq_def ret_def raise_def
       lift_def new_stored stored_def split: sum.splits)

lemma propagate_through_prog_refines:
  assumes "object_value h self = Some v"
  shows "propagate_through_prog self wrapper h
     = stored h (propagate_through IntervalBounds_class v wrapper)"
  by (cases wrapper)
     (simp_all add: propagate_through_prog_def propagate_through_def IntervalBounds_class_def
       call_linear_def call_conv2d_def call_monotonic_fn_def call_batch_norm_def
       call_batch_flatten_def linear_prog_refines[OF assms] conv2d_prog_refines[OF assms]
       monotonic_fn_prog_refines[OF assms] batch_norm_prog_refines[OF assms]
       batch_flatten_prog_refines[OF assms] raise_def stored_def)

lemma allocating_frame:
  assumes "allocating p" "p h = (r, h')"
  shows "take (length h) h' = h \<and> (\<forall>a < length h. h' ! a = h ! a) \<and>
         (\<forall>a. r = Inr a \<longrightarrow> a = length h \<and> length h' = Suc (length h))"
proof -
  from assms(1) have "case p h of (Inl e, h') \<Rightarrow> h' = h
      | (Inr a, h') \<Rightarrow> a = length h \<and> (\<exists>ob. h' = h @ [ob])"
    unfolding allocating_def by (rule spec)
  then have c: "case r of Inl e \<Rightarrow> h' = h | Inr a \<Rightarrow> a = length h \<and> (\<exists>ob. h' = h @ [ob])"
    by (simp add: assms(2))
  show ?thesis
  proof (cases r)
    case (Inl e)
    with c show ?thesis by simp
  next
    case (Inr a)
    with c obtain ob where "a = length h" "h' = h @ [ob]" by auto
    with Inr show ?thesis by (simp add: nth_append)
  qed
qed

section \<open>The claims\<close>

lemma monotonic_relu: "monotonic relu"
  unfolding monotonic_def relu_def
  by (auto simp: tle_def tmap_def list_all2_conv_all_nth split: list.splits)

text \<open>
  C1. If \<open>lower \<le> upper\<close> holds elementwise for a bounds value, it holds again for the
  bounds that \<^verbatim>\<open>_linear\<close>, \<^verbatim>\<open>_conv2d\<close>, \<^verbatim>\<open>_batch_norm\<close> and \<^verbatim>\<open>_batch_flatten\<close>
  return, and for the bounds that \<^verbatim>\<open>_monotonic_fn\<close> returns when the function is
  non-decreasing in every argument. For \<^verbatim>\<open>_batch_norm\<close> the parameters are those on
  which \<^verbatim>\<open>tf.rsqrt\<close> is a real number: \<open>variance + epsilon\<close> is positive.
\<close>

theorem ordering_preserved:
  assumes "ordered self"
  shows "(IntervalBounds_linear self w b = Inr r1 \<longrightarrow> ordered r1) \<and>
         (IntervalBounds_conv2d self cw cb pad strides = Inr r2 \<longrightarrow> ordered r2) \<and>
         (list_all (\<lambda>x. 0 < x + epsilon) (dat variance) \<longrightarrow>
            IntervalBounds_batch_norm self mean variance scale bias epsilon = Inr r3 \<longrightarrow>
            ordered r3) \<and>
         (IntervalBounds_batch_flatten self = Inr r4 \<longrightarrow> ordered r4) \<and>
         (monotonic fn \<longrightarrow> IntervalBounds_monotonic_fn self fn = Inr r5 \<longrightarrow> ordered r5)"
proof (intro conjI impI)
  show "ordered r1" if "IntervalBounds_linear self w b = Inr r1"
    using assms that by (rule linear_ordered)
  show "ordered r2" if "IntervalBounds_conv2d self cw cb pad strides = Inr r2"
    using assms that by (rule conv2d_ordered)
  show "ordered r3"
    if "list_all (\<lambda>x. 0 < x + epsilon) (dat variance)"
      and "IntervalBounds_batch_norm self mean variance scale bias epsilon = Inr r3"
    using assms that(2) by (rule batch_norm_ordered)
  show "ordered r4" if "IntervalBounds_batch_flatten self = Inr r4"
    using assms that by (rule batch_flatten_ordered)
  show "ordered r5" if "monotonic fn" and "IntervalBounds_monotonic_fn self fn = Inr r5"
    using assms that by (rule monotonic_fn_ordered)
qed

theorem ordering_preserved_witness:
  "ordered \<lparr>lower = Tensor (mat11 1), upper = Tensor (mat11 3)\<rparr> \<and>
   IntervalBounds_linear \<lparr>lower = Tensor (mat11 1), upper = Tensor (mat11 3)\<rparr> (mat11 (- 2)) None
     = Inr \<lparr>lower = Tensor (mat11 (- 6)), upper = Tensor (mat11 (- 2))\<rparr> \<and>
   ordered \<lparr>lower = Tensor (mat11 (- 6)), upper = Tensor (mat11 (- 2))\<rparr> \<and>
   list_all (\<lambda>x. 0 < x + (1::real)) (dat (mat11 3)) \<and>
   IntervalBounds_batch_norm \<lparr>lower = Tensor (mat11 1), upper = Tensor (mat11 3)\<rparr>
       (mat11 0) (mat11 3) (Some (mat11 (- 2))) None 1
     = Inr \<lparr>lower = Tensor (mat11 (- 3)), upper = Tensor (mat11 (- 1))\<rparr> \<and>
   ordered \<lparr>lower = Tensor (mat11 (- 3)), upper = Tensor (mat11 (- 1))\<rparr> \<and>
   IntervalBounds_batch_flatten \<lparr>lower = Tensor (mat11 1), upper = Tensor (mat11 3)\<rparr>
     = Inr \<lparr>lower = Tensor (mat11 1), upper = Tensor (mat11 3)\<rparr> \<and>
   monotonic relu \<and>
   IntervalBounds_monotonic_fn \<lparr>lower = Tensor (mat11 (- 6)), upper = Tensor (mat11 (- 2))\<rparr> relu
     = Inr \<lparr>lower = Tensor (mat11 0), upper = Tensor (mat11 0)\<rparr> \<and>
   ordered \<lparr>lower = Tensor (mat11 0), upper = Tensor (mat11 0)\<rparr> \<and>
   ordered \<lparr>lower = Tensor \<lparr>shape = [1, 1, 1, 1], dat = [1]\<rparr>,
            upper = Tensor \<lparr>shape = [1, 1, 1, 1], dat = [3]\<rparr>\<rparr> \<and>
   IntervalBounds_conv2d \<lparr>lower = Tensor \<lparr>shape = [1, 1, 1, 1], dat = [1]\<rparr>,
                          upper = Tensor \<lparr>shape = [1, 1, 1, 1], dat = [3]\<rparr>\<rparr>
       \<lparr>shape = [1, 1, 1, 1], dat = [- 2]\<rparr> None VALID [1, 1]
     = Inr \<lparr>lower = Tensor \<lparr>shape = [1, 1, 1, 1], dat = [- 6]\<rparr>,
            upper = Tensor \<lparr>shape = [1, 1, 1, 1], dat = [- 2]\<rparr>\<rparr> \<and>
   ordered \<lparr>lower = Tensor \<lparr>shape = [1, 1, 1, 1], dat = [- 6]\<rparr>,
            upper = Tensor \<lparr>shape = [1, 1, 1, 1], dat = [- 2]\<rparr>\<rparr>"
proof -
  let ?B = "\<lparr>lower = Tensor (mat11 1), upper = Tensor (mat11 3)\<rparr>"
  let ?C = "\<lparr>lower = Tensor (mat11 (- 6)), upper = Tensor (mat11 (- 2))\<rparr>"
  let ?D = "\<lparr>lower = Tensor \<lparr>shape = [1, 1, 1, 1], dat = [1]\<rparr>,
            upper = Tensor \<lparr>shape = [1, 1, 1, 1], dat = [3]\<rparr>\<rparr>"
  have oB: "ordered ?B" by (simp add: ordered_def tle_def mat11_def)
  have oD: "ordered ?D" by (simp add: ordered_def tle_def)
  have lin: "IntervalBounds_linear ?B (mat11 (- 2)) None = Inr ?C"
    by (simp add: IntervalBounds_linear_def ensure_singleton_def tadd_def tsub_def tbin_def
        broadcast_shape_def bcast_def matmul_def tab_def thalf_def tmap_def tabs_def
        add_bias_def center_radius_def el_def mat11_def)
  have bn: "IntervalBounds_batch_norm ?B (mat11 0) (mat11 3) (Some (mat11 (- 2))) None 1
     = Inr \<lparr>lower = Tensor (mat11 (- 3)), upper = Tensor (mat11 (- 1))\<rparr>"
    by (simp add: IntervalBounds_batch_norm_def bn_multiplier_def bn_bias_def squeeze0_def
        ensure_singleton_def tadd_def tsub_def tmul_def tbin_def broadcast_shape_def bcast_def
        thalf_def tmap_def tabs_def trsqrt_def tadd_scalar_def tneg_def center_radius_def
        mat11_def)
  have fl: "IntervalBounds_batch_flatten ?B = Inr ?B"
    by (simp add: IntervalBounds_batch_flatten_def ensure_singleton_def BatchFlatten_def
        mat11_def)
  have mo: "IntervalBounds_monotonic_fn ?C relu
     = Inr \<lparr>lower = Tensor (mat11 0), upper = Tensor (mat11 0)\<rparr>"
    by (simp add: IntervalBounds_monotonic_fn_def ensure_singleton_def relu_def tmap_def
        mat11_def)
  have cv: "IntervalBounds_conv2d ?D \<lparr>shape = [1, 1, 1, 1], dat = [- 2]\<rparr> None VALID [1, 1]
     = Inr \<lparr>lower = Tensor \<lparr>shape = [1, 1, 1, 1], dat = [- 6]\<rparr>,
            upper = Tensor \<lparr>shape = [1, 1, 1, 1], dat = [- 2]\<rparr>\<rparr>"
    by (simp add: IntervalBounds_conv2d_def ensure_singleton_def tadd_def tsub_def tbin_def
        broadcast_shape_def bcast_def convolution_def conv_out_def conv_pad_def conv_at_def
        thalf_def tmap_def tabs_def add_bias_def center_radius_def el_def)
  from ordering_preserved[OF oB, where w = "mat11 (- 2)" and b = None and ?r1.0 = ?C] lin
  have o1: "ordered ?C" by blast
  from ordering_preserved[OF oB, where mean = "mat11 0" and variance = "mat11 3"
      and scale = "Some (mat11 (- 2))" and bias = None and epsilon = 1
      and ?r3.0 = "\<lparr>lower = Tensor (mat11 (- 3)), upper = Tensor (mat11 (- 1))\<rparr>"] bn
  have o3: "ordered \<lparr>lower = Tensor (mat11 (- 3)), upper = Tensor (mat11 (- 1))\<rparr>"
    by (simp add: mat11_def)
  from ordering_preserved[OF o1, where fn = relu
      and ?r5.0 = "\<lparr>lower = Tensor (mat11 0), upper = Tensor (mat11 0)\<rparr>"] mo monotonic_relu
  have o5: "ordered \<lparr>lower = Tensor (mat11 0), upper = Tensor (mat11 0)\<rparr>" by blast
  from ordering_preserved[OF oD, where cw = "\<lparr>shape = [1, 1, 1, 1], dat = [- 2]\<rparr>"
      and cb = None and pad = VALID and strides = "[1, 1]"
      and ?r2.0 = "\<lparr>lower = Tensor \<lparr>shape = [1, 1, 1, 1], dat = [- 6]\<rparr>,
            upper = Tensor \<lparr>shape = [1, 1, 1, 1], dat = [- 2]\<rparr>\<rparr>"] cv
  have o2: "ordered \<lparr>lower = Tensor \<lparr>shape = [1, 1, 1, 1], dat = [- 6]\<rparr>,
            upper = Tensor \<lparr>shape = [1, 1, 1, 1], dat = [- 2]\<rparr>\<rparr>" by blast
  show ?thesis using oB oD lin bn fl mo cv o1 o2 o3 o5 monotonic_relu
    by (simp add: mat11_def)
qed

text \<open>
  C2. For a batch of \<open>n\<close> rows of \<open>k\<close> features, a weight matrix \<open>k \<times> m\<close> and an optional
  bias of \<open>m\<close> elements, \<^verbatim>\<open>_linear\<close> on a singleton interval returns
  \<open>[c\<cdot>w + b - r\<cdot>|w|, c\<cdot>w + b + r\<cdot>|w|]\<close> with \<open>c = (lower + upper) / 2\<close> and
  \<open>r = (upper - lower) / 2\<close>. For the 1\<times>1 layer with \<open>w = 2\<close>, \<open>b = 1\<close> and the input
  \<open>[1, 3]\<close> it returns \<open>[3, 7]\<close>; with \<open>w = - 2\<close>, \<open>b = 0\<close> it returns \<open>[- 6, - 2]\<close>, whose
  lower bound is below its upper bound.
\<close>

theorem linear_center_radius:
  "(shape l = [n, k] \<and> shape u = [n, k] \<and> wf_tensor l \<and> wf_tensor u \<and>
    shape w = [k, m] \<and> wf_tensor w \<and>
    (case b of None \<Rightarrow> True | Some b' \<Rightarrow> shape b' = [m] \<and> wf_tensor b') \<longrightarrow>
      IntervalBounds_linear \<lparr>lower = Tensor l, upper = Tensor u\<rparr> w b
        = Inr \<lparr>lower = Tensor (table2 n m (\<lambda>i j. linear_center l u w b k m i j
                                                    - linear_radius l u w k m i j)),
               upper = Tensor (table2 n m (\<lambda>i j. linear_center l u w b k m i j
                                                    + linear_radius l u w k m i j))\<rparr>) \<and>
   IntervalBounds_linear \<lparr>lower = Tensor (mat11 1), upper = Tensor (mat11 3)\<rparr>
       (mat11 2) (Some (vec1 1))
     = Inr \<lparr>lower = Tensor (mat11 3), upper = Tensor (mat11 7)\<rparr> \<and>
   IntervalBounds_linear \<lparr>lower = Tensor (mat11 1), upper = Tensor (mat11 3)\<rparr>
       (mat11 (- 2)) (Some (vec1 0))
     = Inr \<lparr>lower = Tensor (mat11 (- 6)), upper = Tensor (mat11 (- 2))\<rparr> \<and>
   ordered \<lparr>lower = Tensor (mat11 (- 6)), upper = Tensor (mat11 (- 2))\<rparr>"
proof (intro conjI impI)
  assume a: "shape l = [n, k] \<and> shape u = [n, k] \<and> wf_tensor l \<and> wf_tensor u \<and>
    shape w = [k, m] \<and> wf_tensor w \<and>
    (case b of None \<Rightarrow> True | Some b' \<Rightarrow> shape b' = [m] \<and> wf_tensor b')"
  then have "\<forall>b'. b = Some b' \<longrightarrow> shape b' = [m] \<and> wf_tensor b'" by auto
  with a show "IntervalBounds_linear \<lparr>lower = Tensor l, upper = Tensor u\<rparr> w b
        = Inr \<lparr>lower = Tensor (table2 n m (\<lambda>i j. linear_center l u w b k m i j
                                                    - linear_radius l u w k m i j)),
               upper = Tensor (table2 n m (\<lambda>i j. linear_center l u w b k m i j
                                                    + linear_radius l u w k m i j))\<rparr>"
    by (intro linear_formula) simp_all
next
  show "IntervalBounds_linear \<lparr>lower = Tensor (mat11 1), upper = Tensor (mat11 3)\<rparr>
       (mat11 2) (Some (vec1 1))
     = Inr \<lparr>lower = Tensor (mat11 3), upper = Tensor (mat11 7)\<rparr>"
    by (simp add: IntervalBounds_linear_def ensure_singleton_def tadd_def tsub_def tbin_def
        broadcast_shape_def bcast_def matmul_def tab_def thalf_def tmap_def tabs_def
        add_bias_def center_radius_def el_def mat11_def vec1_def)
next
  show "IntervalBounds_linear \<lparr>lower = Tensor (mat11 1), upper = Tensor (mat11 3)\<rparr>
       (mat11 (- 2)) (Some (vec1 0))
     = Inr \<lparr>lower = Tensor (mat11 (- 6)), upper = Tensor (mat11 (- 2))\<rparr>"
    by (simp add: IntervalBounds_linear_def ensure_singleton_def tadd_def tsub_def tbin_def
        broadcast_shape_def bcast_def matmul_def tab_def thalf_def tmap_def tabs_def
        add_bias_def center_radius_def el_def mat11_def vec1_def)
next
  show "ordered \<lparr>lower = Tensor (mat11 (- 6)), upper = Tensor (mat11 (- 2))\<rparr>"
    by (simp add: ordered_def tle_def mat11_def)
qed

theorem linear_center_radius_witness:
  "shape \<lparr>shape = [1, 2], dat = [0, 1]\<rparr> = [1, 2] \<and>
   shape \<lparr>shape = [1, 2], dat = [2, 3]\<rparr> = [1, 2] \<and>
   wf_tensor \<lparr>shape = [1, 2], dat = [0, 1]\<rparr> \<and> wf_tensor \<lparr>shape = [1, 2], dat = [2, 3]\<rparr> \<and>
   shape \<lparr>shape = [2, 2], dat = [1, - 1, 2, 0]\<rparr> = [2, 2] \<and>
   wf_tensor \<lparr>shape = [2, 2], dat = [1, - 1, 2, 0]\<rparr> \<and>
   shape \<lparr>shape = [2], dat = [1, 1]\<rparr> = [2] \<and> wf_tensor \<lparr>shape = [2], dat = [1, 1]\<rparr> \<and>
   IntervalBounds_linear
       \<lparr>lower = Tensor \<lparr>shape = [1, 2], dat = [0, 1]\<rparr>,
        upper = Tensor \<lparr>shape = [1, 2], dat = [2, 3]\<rparr>\<rparr>
       \<lparr>shape = [2, 2], dat = [1, - 1, 2, 0]\<rparr> (Some \<lparr>shape = [2], dat = [1, 1]\<rparr>)
     = Inr \<lparr>lower = Tensor \<lparr>shape = [1, 2], dat = [3, - 1]\<rparr>,
            upper = Tensor \<lparr>shape = [1, 2], dat = [9, 1]\<rparr>\<rparr>"
  using linear_center_radius[where l = "\<lparr>shape = [1, 2], dat = [0, 1]\<rparr>"
      and u = "\<lparr>shape = [1, 2], dat = [2, 3]\<rparr>" and n = 1 and k = 2 and m = 2
      and w = "\<lparr>shape = [2, 2], dat = [1, - 1, 2, 0]\<rparr>"
      and b = "Some \<lparr>shape = [2], dat = [1, 1]\<rparr>"]
  by (simp add: wf_tensor_def table2_def tab_def linear_center_def linear_radius_def
      upt_conv_Cons)

text \<open>
  C3. For a batch of \<open>n\<close> rows of \<open>m\<close> features and parameters of shape \<open>[1, m]\<close> with
  \<open>variance + epsilon\<close> positive, \<^verbatim>\<open>_batch_norm\<close> returns the bounds of the centre/radius
  rule for the folded affine map: the centre is multiplied by
  \<open>multiplier = 1 / sqrt (variance + epsilon)\<close> (times \<open>scale\<close> if present) and shifted by
  \<open>bias_term = - multiplier * mean\<close> (plus \<open>bias\<close> if present), the radius is multiplied by
  \<open>|multiplier|\<close>. For mean 0, variance 3, epsilon 1, scale 2, bias 0 and the input
  \<open>[1, 3]\<close> the output is \<open>[1, 3]\<close>.
\<close>

theorem batch_norm_fold:
  "(shape l = [n, m] \<and> shape u = [n, m] \<and> wf_tensor l \<and> wf_tensor u \<and>
    shape mean = [1, m] \<and> wf_tensor mean \<and> shape variance = [1, m] \<and> wf_tensor variance \<and>
    list_all (\<lambda>x. 0 < x + epsilon) (dat variance) \<and>
    (case scale of None \<Rightarrow> True | Some s \<Rightarrow> shape s = [1, m] \<and> wf_tensor s) \<and>
    (case bias of None \<Rightarrow> True | Some b \<Rightarrow> shape b = [1, m] \<and> wf_tensor b) \<longrightarrow>
      IntervalBounds_batch_norm \<lparr>lower = Tensor l, upper = Tensor u\<rparr>
          mean variance scale bias epsilon
        = Inr \<lparr>lower = Tensor (table2 n m (\<lambda>i j.
                   (dat l ! (i * m + j) + dat u ! (i * m + j)) / 2
                     * fold_multiplier variance scale epsilon j
                   + fold_bias_term mean variance scale bias epsilon j
                   - (dat u ! (i * m + j) - dat l ! (i * m + j)) / 2
                     * \<bar>fold_multiplier variance scale epsilon j\<bar>)),
               upper = Tensor (table2 n m (\<lambda>i j.
                   (dat l ! (i * m + j) + dat u ! (i * m + j)) / 2
                     * fold_multiplier variance scale epsilon j
                   + fold_bias_term mean variance scale bias epsilon j
                   + (dat u ! (i * m + j) - dat l ! (i * m + j)) / 2
                     * \<bar>fold_multiplier variance scale epsilon j\<bar>))\<rparr>) \<and>
   IntervalBounds_batch_norm \<lparr>lower = Tensor (mat11 1), upper = Tensor (mat11 3)\<rparr>
       (mat11 0) (mat11 3) (Some (mat11 2)) (Some (mat11 0)) 1
     = Inr \<lparr>lower = Tensor (mat11 1), upper = Tensor (mat11 3)\<rparr>"
proof (intro conjI impI)
  assume a: "shape l = [n, m] \<and> shape u = [n, m] \<and> wf_tensor l \<and> wf_tensor u \<and>
    shape mean = [1, m] \<and> wf_tensor mean \<and> shape variance = [1, m] \<and> wf_tensor variance \<and>
    list_all (\<lambda>x. 0 < x + epsilon) (dat variance) \<and>
    (case scale of None \<Rightarrow> True | Some s \<Rightarrow> shape s = [1, m] \<and> wf_tensor s) \<and>
    (case bias of None \<Rightarrow> True | Some b \<Rightarrow> shape b = [1, m] \<and> wf_tensor b)"
  then have "\<forall>s. scale = Some s \<longrightarrow> shape s = [1, m] \<and> wf_tensor s"
    and "\<forall>b. bias = Some b \<longrightarrow> shape b = [1, m] \<and> wf_tensor b"
    by auto
  with a show "IntervalBounds_batch_norm \<lparr>lower = Tensor l, upper = Tensor u\<rparr>
          mean variance scale bias epsilon
        = Inr \<lparr>lower = Tensor (table2 n m (\<lambda>i j.
                   (dat l ! (i * m + j) + dat u ! (i * m + j)) / 2
                     * fold_multiplier variance scale epsilon j
                   + fold_bias_term mean variance scale bias epsilon j
                   - (dat u ! (i * m + j) - dat l ! (i * m + j)) / 2
                     * \<bar>fold_multiplier variance scale epsilon j\<bar>)),
               upper = Tensor (table2 n m (\<lambda>i j.
                   (dat l ! (i * m + j) + dat u ! (i * m + j)) / 2
                     * fold_multiplier variance scale epsilon j
                   + fold_bias_term mean variance scale bias epsilon j
                   + (dat u ! (i * m + j) - dat l ! (i * m + j)) / 2
                     * \<bar>fold_multiplier variance scale epsilon j\<bar>))\<rparr>"
    by (intro batch_norm_formula) simp_all
next
  show "IntervalBounds_batch_norm \<lparr>lower = Tensor (mat11 1), upper = Tensor (mat11 3)\<rparr>
       (mat11 0) (mat11 3) (Some (mat11 2)) (Some (mat11 0)) 1
     = Inr \<lparr>lower = Tensor (mat11 1), upper = Tensor (mat11 3)\<rparr>"
    by (simp add: IntervalBounds_batch_norm_def bn_multiplier_def bn_bias_def squeeze0_def
        ensure_singleton_def tadd_def tsub_def tmul_def tbin_def broadcast_shape_def bcast_def
        thalf_def tmap_def tabs_def trsqrt_def tadd_scalar_def tneg_def center_radius_def
        mat11_def)
qed

theorem batch_norm_fold_witness:
  "wf_tensor \<lparr>shape = [1, 2], dat = [1, 1]\<rparr> \<and> wf_tensor \<lparr>shape = [1, 2], dat = [3, 3]\<rparr> \<and>
   wf_tensor \<lparr>shape = [1, 2], dat = [0, 1]\<rparr> \<and> wf_tensor \<lparr>shape = [1, 2], dat = [2, 3]\<rparr> \<and>
   list_all (\<lambda>x. 0 < x + (1::real)) (dat \<lparr>shape = [1, 2], dat = [3, 3]\<rparr>) \<and>
   fold_multiplier \<lparr>shape = [1, 2], dat = [3, 3]\<rparr>
       (Some \<lparr>shape = [1, 2], dat = [2, 3]\<rparr>) 1 1 = 3 / 2 \<and>
   fold_bias_term \<lparr>shape = [1, 2], dat = [0, 1]\<rparr> \<lparr>shape = [1, 2], dat = [3, 3]\<rparr>
       (Some \<lparr>shape = [1, 2], dat = [2, 3]\<rparr>) (Some \<lparr>shape = [1, 2], dat = [0, 1]\<rparr>) 1 1
     = - 1 / 2 \<and>
   IntervalBounds_batch_norm
       \<lparr>lower = Tensor \<lparr>shape = [1, 2], dat = [1, 1]\<rparr>,
        upper = Tensor \<lparr>shape = [1, 2], dat = [3, 3]\<rparr>\<rparr>
       \<lparr>shape = [1, 2], dat = [0, 1]\<rparr> \<lparr>shape = [1, 2], dat = [3, 3]\<rparr>
       (Some \<lparr>shape = [1, 2], dat = [2, 3]\<rparr>) (Some \<lparr>shape = [1, 2], dat = [0, 1]\<rparr>) 1
     = Inr \<lparr>lower = Tensor \<lparr>shape = [1, 2], dat = [1, 1]\<rparr>,
            upper = Tensor \<lparr>shape = [1, 2], dat = [3, 4]\<rparr>\<rparr>"
  using batch_norm_fold[where l = "\<lparr>shape = [1, 2], dat = [1, 1]\<rparr>"
      and u = "\<lparr>shape = [1, 2], dat = [3, 3]\<rparr>" and n = 1 and m = 2
      and mean = "\<lparr>shape = [1, 2], dat = [0, 1]\<rparr>"
      and variance = "\<lparr>shape = [1, 2], dat = [3, 3]\<rparr>" and epsilon = 1
      and scale = "Some \<lparr>shape = [1, 2], dat = [2, 3]\<rparr>"
      and bias = "Some \<lparr>shape = [1, 2], dat = [0, 1]\<rparr>"]
  by (simp add: wf_tensor_def table2_def tab_def fold_multiplier_def fold_bias_term_def
      upt_conv_Cons)

text \<open>
  C4. \<^verbatim>\<open>combine_with\<close> of a singleton with a singleton returns the two 2-tuples
  \<open>(self.lower, other.lower)\<close> and \<open>(self.upper, other.upper)\<close>; of tuples of length \<open>k\<close>
  with a singleton it returns tuples of length \<open>k + 1\<close>, the operand last and the earlier
  sources in their order. Combining A = (1, 2) with B = (3, 4) gives lower (1, 3) and upper
  (2, 4), and combining the result with C = (5, 6) gives lower (1, 3, 5) and upper (2, 4, 6).
\<close>

theorem combine_with_appends:
  "combine_with \<lparr>lower = Tensor l, upper = Tensor u\<rparr>
       (Interval \<lparr>lower = Tensor bl, upper = Tensor bu\<rparr>)
     = Inr \<lparr>lower = Tuple [l, bl], upper = Tuple [u, bu]\<rparr> \<and>
   combine_with \<lparr>lower = Tuple ls, upper = Tuple us\<rparr>
       (Interval \<lparr>lower = Tensor bl, upper = Tensor bu\<rparr>)
     = Inr \<lparr>lower = Tuple (ls @ [bl]), upper = Tuple (us @ [bu])\<rparr> \<and>
   length (ls @ [bl]) = length ls + 1 \<and> length (us @ [bu]) = length us + 1 \<and>
   combine_with \<lparr>lower = Tensor (scalar 1), upper = Tensor (scalar 2)\<rparr>
       (Interval \<lparr>lower = Tensor (scalar 3), upper = Tensor (scalar 4)\<rparr>)
     = Inr \<lparr>lower = Tuple [scalar 1, scalar 3], upper = Tuple [scalar 2, scalar 4]\<rparr> \<and>
   combine_with \<lparr>lower = Tuple [scalar 1, scalar 3], upper = Tuple [scalar 2, scalar 4]\<rparr>
       (Interval \<lparr>lower = Tensor (scalar 5), upper = Tensor (scalar 6)\<rparr>)
     = Inr \<lparr>lower = Tuple [scalar 1, scalar 3, scalar 5],
            upper = Tuple [scalar 2, scalar 4, scalar 6]\<rparr>"
  by (simp add: combine_with_def ensure_singleton_def)

text \<open>
  C5. On bounds whose \<open>lower\<close> or \<open>upper\<close> is a tuple, \<^verbatim>\<open>_linear\<close>, \<^verbatim>\<open>_conv2d\<close>,
  \<^verbatim>\<open>_batch_norm\<close> and \<^verbatim>\<open>_batch_flatten\<close> raise the multi-source error, and so does
  \<^verbatim>\<open>combine_with\<close> when its operand is such a value. The monotonic-function path and
  \<^verbatim>\<open>combine_with\<close> on a multi-source \<open>self\<close> accept tuples.
\<close>

theorem singleton_guard:
  "(is_tuple (lower self) \<or> is_tuple (upper self) \<longrightarrow>
      IntervalBounds_linear self w b = Inl MultiSourceViolation \<and>
      IntervalBounds_conv2d self cw cb pad strides = Inl MultiSourceViolation \<and>
      IntervalBounds_batch_norm self mean variance scale bias epsilon
        = Inl MultiSourceViolation \<and>
      IntervalBounds_batch_flatten self = Inl MultiSourceViolation) \<and>
   (is_tuple (lower other) \<or> is_tuple (upper other) \<longrightarrow>
      combine_with recv (Interval other) = Inl MultiSourceViolation) \<and>
   (fn_call fn ls = Inr a \<and> fn_call fn us = Inr c \<longrightarrow>
      IntervalBounds_monotonic_fn \<lparr>lower = Tuple ls, upper = Tuple us\<rparr> fn
        = Inr \<lparr>lower = Tensor a, upper = Tensor c\<rparr>) \<and>
   combine_with \<lparr>lower = Tuple ls, upper = Tuple us\<rparr>
       (Interval \<lparr>lower = Tensor bl, upper = Tensor bu\<rparr>)
     = Inr \<lparr>lower = Tuple (ls @ [bl]), upper = Tuple (us @ [bu])\<rparr>"
proof -
  have es: "ensure_singleton x = Inl MultiSourceViolation"
    if "is_tuple (lower x) \<or> is_tuple (upper x)" for x
    using that
    by (cases "lower x"; cases "upper x")
       (simp_all add: ensure_singleton_def MultiSourceViolation_def)
  have guard: "is_tuple (lower self) \<or> is_tuple (upper self) \<longrightarrow>
      IntervalBounds_linear self w b = Inl MultiSourceViolation \<and>
      IntervalBounds_conv2d self cw cb pad strides = Inl MultiSourceViolation \<and>
      IntervalBounds_batch_norm self mean variance scale bias epsilon
        = Inl MultiSourceViolation \<and>
      IntervalBounds_batch_flatten self = Inl MultiSourceViolation"
    by (simp add: es IntervalBounds_linear_def IntervalBounds_conv2d_def
        IntervalBounds_batch_norm_def IntervalBounds_batch_flatten_def)
  have operand: "is_tuple (lower other) \<or> is_tuple (upper other) \<longrightarrow>
      combine_with recv (Interval other) = Inl MultiSourceViolation"
    by (simp add: es combine_with_def)
  have accept: "(fn_call fn ls = Inr a \<and> fn_call fn us = Inr c \<longrightarrow>
      IntervalBounds_monotonic_fn \<lparr>lower = Tuple ls, upper = Tuple us\<rparr> fn
        = Inr \<lparr>lower = Tensor a, upper = Tensor c\<rparr>) \<and>
   combine_with \<lparr>lower = Tuple ls, upper = Tuple us\<rparr>
       (Interval \<lparr>lower = Tensor bl, upper = Tensor bu\<rparr>)
     = Inr \<lparr>lower = Tuple (ls @ [bl]), upper = Tuple (us @ [bu])\<rparr>"
    by (simp add: combine_with_def IntervalBounds_monotonic_fn_def ensure_singleton_def)
  from guard operand accept show ?thesis by blast
qed

theorem singleton_guard_witness:
  "is_tuple (lower \<lparr>lower = Tuple [scalar 1, scalar 3], upper = Tuple [scalar 2, scalar 4]\<rparr>) \<and>
   IntervalBounds_linear \<lparr>lower = Tuple [scalar 1, scalar 3], upper = Tuple [scalar 2, scalar 4]\<rparr>
       (mat11 2) None = Inl (ValueError ''Cannot proceed with multiple inputs.'') \<and>
   IntervalBounds_conv2d \<lparr>lower = Tuple [scalar 1, scalar 3], upper = Tuple [scalar 2, scalar 4]\<rparr>
       (mat11 2) None SAME [1, 1] = Inl (ValueError ''Cannot proceed with multiple inputs.'') \<and>
   IntervalBounds_batch_norm \<lparr>lower = Tuple [scalar 1, scalar 3], upper = Tuple [scalar 2, scalar 4]\<rparr>
       (mat11 0) (mat11 3) None None 1 = Inl (ValueError ''Cannot proceed with multiple inputs.'') \<and>
   IntervalBounds_batch_flatten
       \<lparr>lower = Tuple [scalar 1, scalar 3], upper = Tuple [scalar 2, scalar 4]\<rparr>
     = Inl (ValueError ''Cannot proceed with multiple inputs.'') \<and>
   combine_with \<lparr>lower = Tensor (scalar 5), upper = Tensor (scalar 6)\<rparr>
       (Interval \<lparr>lower = Tuple [scalar 1, scalar 3], upper = Tuple [scalar 2, scalar 4]\<rparr>)
     = Inl (ValueError ''Cannot proceed with multiple inputs.'') \<and>
   fn_call add [scalar 1, scalar 3] = Inr (scalar 4) \<and>
   fn_call add [scalar 2, scalar 4] = Inr (scalar 6) \<and>
   IntervalBounds_monotonic_fn
       \<lparr>lower = Tuple [scalar 1, scalar 3], upper = Tuple [scalar 2, scalar 4]\<rparr> add
     = Inr \<lparr>lower = Tensor (scalar 4), upper = Tensor (scalar 6)\<rparr>"
proof -
  let ?M = "\<lparr>lower = Tuple [scalar 1, scalar 3], upper = Tuple [scalar 2, scalar 4]\<rparr>"
  have t: "is_tuple (lower ?M)" by simp
  have a1: "fn_call add [scalar 1, scalar 3] = Inr (scalar 4)"
    and a2: "fn_call add [scalar 2, scalar 4] = Inr (scalar 6)"
    by (simp_all add: add_def scalar_def tadd_def tbin_def broadcast_shape_def bcast_def)
  show ?thesis
    using t a1 a2
      singleton_guard[where self = ?M and other = ?M
        and recv = "\<lparr>lower = Tensor (scalar 5), upper = Tensor (scalar 6)\<rparr>" and w = "mat11 2" and b = None
        and cw = "mat11 2" and cb = None and pad = SAME and strides = "[1, 1]"
        and mean = "mat11 0" and variance = "mat11 3" and scale = None and bias = None
        and epsilon = 1 and fn = add and ls = "[scalar 1, scalar 3]"
        and us = "[scalar 2, scalar 4]" and a = "scalar 4" and c = "scalar 6"]
    by (simp add: MultiSourceViolation_def)
qed

text \<open>
  C6. On tuples \<^verbatim>\<open>_monotonic_fn\<close> returns the bounds made of the function applied to the
  unpacked tuple of lower bounds and of the function applied to the unpacked tuple of upper
  bounds; on a singleton it returns the bounds made of the function applied to \<open>lower\<close> and
  to \<open>upper\<close>.
\<close>

theorem monotonic_fn_result:
  "(fn_call fn ls = Inr a \<and> fn_call fn us = Inr c \<longrightarrow>
      IntervalBounds_monotonic_fn \<lparr>lower = Tuple ls, upper = Tuple us\<rparr> fn
        = Inr \<lparr>lower = Tensor a, upper = Tensor c\<rparr>) \<and>
   (fn_call fn [l] = Inr a' \<and> fn_call fn [u] = Inr c' \<longrightarrow>
      IntervalBounds_monotonic_fn \<lparr>lower = Tensor l, upper = Tensor u\<rparr> fn
        = Inr \<lparr>lower = Tensor a', upper = Tensor c'\<rparr>)"
  by (simp add: IntervalBounds_monotonic_fn_def ensure_singleton_def)

theorem monotonic_fn_result_witness:
  "fn_call add [scalar 1, scalar 3] = Inr (scalar 4) \<and>
   fn_call add [scalar 2, scalar 4] = Inr (scalar 6) \<and>
   IntervalBounds_monotonic_fn
       \<lparr>lower = Tuple [scalar 1, scalar 3], upper = Tuple [scalar 2, scalar 4]\<rparr> add
     = Inr \<lparr>lower = Tensor (scalar 4), upper = Tensor (scalar 6)\<rparr> \<and>
   fn_call relu [mat11 (- 6)] = Inr (mat11 0) \<and>
   fn_call relu [mat11 2] = Inr (mat11 2) \<and>
   IntervalBounds_monotonic_fn \<lparr>lower = Tensor (mat11 (- 6)), upper = Tensor (mat11 2)\<rparr> relu
     = Inr \<lparr>lower = Tensor (mat11 0), upper = Tensor (mat11 2)\<rparr>"
proof -
  have a1: "fn_call add [scalar 1, scalar 3] = Inr (scalar 4)"
    and a2: "fn_call add [scalar 2, scalar 4] = Inr (scalar 6)"
    by (simp_all add: add_def scalar_def tadd_def tbin_def broadcast_shape_def bcast_def)
  have r1: "fn_call relu [mat11 (- 6)] = Inr (mat11 0)"
    and r2: "fn_call relu [mat11 2] = Inr (mat11 2)"
    by (simp_all add: relu_def mat11_def tmap_def)
  show ?thesis
    using a1 a2 r1 r2
      monotonic_fn_result[where fn = add and ls = "[scalar 1, scalar 3]"
        and us = "[scalar 2, scalar 4]" and a = "scalar 4" and c = "scalar 6"]
      monotonic_fn_result[where fn = relu and l = "mat11 (- 6)" and u = "mat11 2"
        and a' = "mat11 0" and c' = "mat11 2"]
    by simp
qed

text \<open>
  C7. \<^verbatim>\<open>propagate_through\<close> raises \<^verbatim>\<open>NotImplementedError\<close> with the name of the wrapper
  class for a wrapper outside the five kinds; for a wrapper of one of the five kinds and a
  class of bounds that does not override the handler of that kind, it raises
  \<^verbatim>\<open>NotImplementedError\<close> with the name of the layer kind and the name of the class.
\<close>

theorem propagate_through_unsupported:
  \<open>propagate_through cls self (OtherWrapper n)
     = Inl (NotImplementedError (n @ '' not supported.'')) \<and>
   (linear_method cls = None \<longrightarrow>
      propagate_through cls self (LinearFCWrapper lm)
        = Inl (NotImplementedError
                 (''snt.Linear'' @ '' modules are not supported by "'' @ class_name cls @ ''".''))) \<and>
   (conv2d_method cls = None \<longrightarrow>
      propagate_through cls self (LinearConv2dWrapper cm)
        = Inl (NotImplementedError
                 (''snt.Conv2D'' @ '' modules are not supported by "'' @ class_name cls @ ''".''))) \<and>
   (monotonic_fn_method cls = None \<longrightarrow>
      propagate_through cls self (MonotonicWrapper fn)
        = Inl (NotImplementedError
                 (fn_name fn @ '' modules are not supported by "'' @ class_name cls @ ''".''))) \<and>
   (batch_norm_method cls = None \<longrightarrow>
      propagate_through cls self (BatchNormWrapper bm)
        = Inl (NotImplementedError
                 (''ibp.BatchNorm'' @ '' modules are not supported by "'' @ class_name cls @ ''".''))) \<and>
   (batch_flatten_method cls = None \<longrightarrow>
      propagate_through cls self BatchFlattenWrapper
        = Inl (NotImplementedError
                 (''snt.BatchFlatten'' @ '' modules are not supported by "'' @ class_name cls
                  @ ''".'')))\<close>
  by (simp add: propagate_through_def call_linear_def call_conv2d_def call_monotonic_fn_def
      call_batch_norm_def call_batch_flatten_def AbstractBounds_linear_def
      AbstractBounds_conv2d_def AbstractBounds_monotonic_fn_def AbstractBounds_batch_norm_def
      AbstractBounds_batch_flatten_def raise_not_implemented_def)

theorem propagate_through_unsupported_witness:
  \<open>propagate_through
       \<lparr>class_name = ''Plain'', linear_method = None, conv2d_method = None,
        monotonic_fn_method = None, batch_norm_method = None, batch_flatten_method = None\<rparr>
       () (LinearFCWrapper \<lparr>lin_w = mat11 2, lin_has_bias = True, lin_b = vec1 1\<rparr>)
     = Inl (NotImplementedError ''snt.Linear modules are not supported by "Plain".'') \<and>
   propagate_through
       \<lparr>class_name = ''Plain'', linear_method = None, conv2d_method = None,
        monotonic_fn_method = None, batch_norm_method = None, batch_flatten_method = None\<rparr>
       () (LinearConv2dWrapper \<lparr>conv_w = mat11 2, conv_has_bias = False, conv_b = vec1 1,
                                 conv_padding = SAME, conv_stride = [1, 1, 1, 1]\<rparr>)
     = Inl (NotImplementedError ''snt.Conv2D modules are not supported by "Plain".'') \<and>
   propagate_through
       \<lparr>class_name = ''Plain'', linear_method = None, conv2d_method = None,
        monotonic_fn_method = None, batch_norm_method = None, batch_flatten_method = None\<rparr>
       () (MonotonicWrapper relu)
     = Inl (NotImplementedError ''relu modules are not supported by "Plain".'') \<and>
   propagate_through
       \<lparr>class_name = ''Plain'', linear_method = None, conv2d_method = None,
        monotonic_fn_method = None, batch_norm_method = None, batch_flatten_method = None\<rparr>
       () (BatchNormWrapper \<lparr>bn_mean = mat11 0, bn_variance = mat11 3, bn_scale = None,
                              bn_bias_param = None, bn_epsilon = 1\<rparr>)
     = Inl (NotImplementedError ''ibp.BatchNorm modules are not supported by "Plain".'') \<and>
   propagate_through
       \<lparr>class_name = ''Plain'', linear_method = None, conv2d_method = None,
        monotonic_fn_method = None, batch_norm_method = None, batch_flatten_method = None\<rparr>
       () BatchFlattenWrapper
     = Inl (NotImplementedError ''snt.BatchFlatten modules are not supported by "Plain".'') \<and>
   propagate_through IntervalBounds_class
       \<lparr>lower = Tensor (mat11 1), upper = Tensor (mat11 3)\<rparr> (OtherWrapper ''PoolWrapper'')
     = Inl (NotImplementedError ''PoolWrapper not supported.'')\<close>
proof -
  let ?P = \<open>\<lparr>class_name = ''Plain'', linear_method = None, conv2d_method = None,
        monotonic_fn_method = None, batch_norm_method = None, batch_flatten_method = None\<rparr>
        :: unit bounds_class\<close>
  show ?thesis
    using propagate_through_unsupported[where cls = ?P and self = "()"
        and lm = \<open>\<lparr>lin_w = mat11 2, lin_has_bias = True, lin_b = vec1 1\<rparr>\<close>
        and cm = \<open>\<lparr>conv_w = mat11 2, conv_has_bias = False, conv_b = vec1 1,
                                 conv_padding = SAME, conv_stride = [1, 1, 1, 1]\<rparr>\<close>
        and fn = relu
        and bm = \<open>\<lparr>bn_mean = mat11 0, bn_variance = mat11 3, bn_scale = None,
                              bn_bias_param = None, bn_epsilon = 1\<rparr>\<close>]
      propagate_through_unsupported[where cls = IntervalBounds_class
        and self = \<open>\<lparr>lower = Tensor (mat11 1), upper = Tensor (mat11 3)\<rparr>\<close>
        and n = \<open>''PoolWrapper''\<close>]
    by (simp add: relu_def)
qed

text \<open>
  C8. \<^verbatim>\<open>_batch_flatten\<close> reshapes \<open>lower\<close> and \<open>upper\<close>, each on its own, to the batch axis
  and one axis of all the features, with the same elements in the same order; on bounds that
  are already two-dimensional it returns bounds equal to the input.
\<close>

theorem batch_flatten_reshapes:
  "(shape l = d # ds \<and> shape u = e # es \<longrightarrow>
      IntervalBounds_batch_flatten \<lparr>lower = Tensor l, upper = Tensor u\<rparr>
        = Inr \<lparr>lower = Tensor \<lparr>shape = [d, prod_list ds], dat = dat l\<rparr>,
               upper = Tensor \<lparr>shape = [e, prod_list es], dat = dat u\<rparr>\<rparr>) \<and>
   (shape l = [n, m] \<and> shape u = [n', m'] \<longrightarrow>
      IntervalBounds_batch_flatten \<lparr>lower = Tensor l, upper = Tensor u\<rparr>
        = Inr \<lparr>lower = Tensor l, upper = Tensor u\<rparr>)"
  by (simp add: IntervalBounds_batch_flatten_def ensure_singleton_def BatchFlatten_def)

theorem batch_flatten_reshapes_witness:
  "IntervalBounds_batch_flatten
       \<lparr>lower = Tensor \<lparr>shape = [1, 2, 2], dat = [1, 2, 3, 4]\<rparr>,
        upper = Tensor \<lparr>shape = [1, 2, 2], dat = [5, 6, 7, 8]\<rparr>\<rparr>
     = Inr \<lparr>lower = Tensor \<lparr>shape = [1, 4], dat = [1, 2, 3, 4]\<rparr>,
            upper = Tensor \<lparr>shape = [1, 4], dat = [5, 6, 7, 8]\<rparr>\<rparr> \<and>
   IntervalBounds_batch_flatten
       \<lparr>lower = Tensor \<lparr>shape = [1, 4], dat = [1, 2, 3, 4]\<rparr>,
        upper = Tensor \<lparr>shape = [1, 4], dat = [5, 6, 7, 8]\<rparr>\<rparr>
     = Inr \<lparr>lower = Tensor \<lparr>shape = [1, 4], dat = [1, 2, 3, 4]\<rparr>,
            upper = Tensor \<lparr>shape = [1, 4], dat = [5, 6, 7, 8]\<rparr>\<rparr>"
  using batch_flatten_reshapes[where l = "\<lparr>shape = [1, 2, 2], dat = [1, 2, 3, 4]\<rparr>"
      and u = "\<lparr>shape = [1, 2, 2], dat = [5, 6, 7, 8]\<rparr>" and d = 1 and ds = "[2, 2]"
      and e = 1 and es = "[2, 2]"]
    batch_flatten_reshapes[where l = "\<lparr>shape = [1, 4], dat = [1, 2, 3, 4]\<rparr>"
      and u = "\<lparr>shape = [1, 4], dat = [5, 6, 7, 8]\<rparr>" and n = 1 and m = 4
      and n' = 1 and m' = 4]
  by simp

text \<open>
  C9. A call of \<^verbatim>\<open>propagate_through\<close> (hence of each of the five handlers) or of
  \<^verbatim>\<open>combine_with\<close> leaves every object of the heap as it was, \<open>self\<close> and the operand
  among them: the only assignments to \<^verbatim>\<open>_lower\<close> and \<^verbatim>\<open>_upper\<close> are those of the
  constructor on the object it has just created. When the call returns bounds, they are
  that new object, at an address that was free, and its attributes are the bounds that
  the method computes from the values of \<open>self\<close> and the operand.
\<close>

theorem no_mutation:
  "(propagate_through_prog self wrapper h = (r, h') \<longrightarrow>
      take (length h) h' = h \<and> (\<forall>a < length h. h' ! a = h ! a) \<and>
      (\<forall>a. r = Inr a \<longrightarrow> a = length h \<and> length h' = Suc (length h))) \<and>
   (combine_with_prog self bounds h = (r, h') \<longrightarrow>
      take (length h) h' = h \<and> (\<forall>a < length h. h' ! a = h ! a) \<and>
      (\<forall>a. r = Inr a \<longrightarrow> a = length h \<and> length h' = Suc (length h))) \<and>
   (object_value h self = Some v \<longrightarrow>
      propagate_through_prog self wrapper h
        = stored h (propagate_through IntervalBounds_class v wrapper)) \<and>
   (object_value h self = Some v \<and> object_value h other = Some ov \<longrightarrow>
      combine_with_prog self (Ref other) h = stored h (combine_with v (Interval ov)))"
proof (intro conjI impI)
  assume "propagate_through_prog self wrapper h = (r, h')"
  from allocating_frame[OF allocating_propagate_through this]
  show "take (length h) h' = h" and "\<forall>a < length h. h' ! a = h ! a"
    and "\<forall>a. r = Inr a \<longrightarrow> a = length h \<and> length h' = Suc (length h)"
    by blast+
next
  assume "combine_with_prog self bounds h = (r, h')"
  from allocating_frame[OF allocating_combine_with this]
  show "take (length h) h' = h" and "\<forall>a < length h. h' ! a = h ! a"
    and "\<forall>a. r = Inr a \<longrightarrow> a = length h \<and> length h' = Suc (length h)"
    by blast+
next
  assume "object_value h self = Some v"
  then show "propagate_through_prog self wrapper h
      = stored h (propagate_through IntervalBounds_class v wrapper)"
    by (rule propagate_through_prog_refines)
next
  assume "object_value h self = Some v \<and> object_value h other = Some ov"
  then show "combine_with_prog self (Ref other) h = stored h (combine_with v (Interval ov))"
    by (intro combine_with_prog_refines) simp_all
qed

theorem no_mutation_witness:
  "object_value
       [\<lparr>attr_lower = Some (Tensor (mat11 1)), attr_upper = Some (Tensor (mat11 3))\<rparr>,
        \<lparr>attr_lower = Some (Tensor (mat11 5)), attr_upper = Some (Tensor (mat11 6))\<rparr>] 0
     = Some \<lparr>lower = Tensor (mat11 1), upper = Tensor (mat11 3)\<rparr> \<and>
   object_value
       [\<lparr>attr_lower = Some (Tensor (mat11 1)), attr_upper = Some (Tensor (mat11 3))\<rparr>,
        \<lparr>attr_lower = Some (Tensor (mat11 5)), attr_upper = Some (Tensor (mat11 6))\<rparr>] 1
     = Some \<lparr>lower = Tensor (mat11 5), upper = Tensor (mat11 6)\<rparr> \<and>
   propagate_through_prog 0
       (LinearFCWrapper \<lparr>lin_w = mat11 (- 2), lin_has_bias = False, lin_b = vec1 0\<rparr>)
       [\<lparr>attr_lower = Some (Tensor (mat11 1)), attr_upper = Some (Tensor (mat11 3))\<rparr>,
        \<lparr>attr_lower = Some (Tensor (mat11 5)), attr_upper = Some (Tensor (mat11 6))\<rparr>]
     = (Inr 2,
        [\<lparr>attr_lower = Some (Tensor (mat11 1)), attr_upper = Some (Tensor (mat11 3))\<rparr>,
         \<lparr>attr_lower = Some (Tensor (mat11 5)), attr_upper = Some (Tensor (mat11 6))\<rparr>,
         \<lparr>attr_lower = Some (Tensor (mat11 (- 6))),
            attr_upper = Some (Tensor (mat11 (- 2)))\<rparr>]) \<and>
   combine_with_prog 0 (Ref 1)
       [\<lparr>attr_lower = Some (Tensor (mat11 1)), attr_upper = Some (Tensor (mat11 3))\<rparr>,
        \<lparr>attr_lower = Some (Tensor (mat11 5)), attr_upper = Some (Tensor (mat11 6))\<rparr>]
     = (Inr 2,
        [\<lparr>attr_lower = Some (Tensor (mat11 1)), attr_upper = Some (Tensor (mat11 3))\<rparr>,
         \<lparr>attr_lower = Some (Tensor (mat11 5)), attr_upper = Some (Tensor (mat11 6))\<rparr>,
         \<lparr>attr_lower = Some (Tuple [mat11 1, mat11 5]),
            attr_upper = Some (Tuple [mat11 3, mat11 6])\<rparr>]) \<and>
   take 2
       [\<lparr>attr_lower = Some (Tensor (mat11 1)), attr_upper = Some (Tensor (mat11 3))\<rparr>,
        \<lparr>attr_lower = Some (Tensor (mat11 5)), attr_upper = Some (Tensor (mat11 6))\<rparr>,
        \<lparr>attr_lower = Some (Tuple [mat11 1, mat11 5]),
           attr_upper = Some (Tuple [mat11 3, mat11 6])\<rparr>]
     = [\<lparr>attr_lower = Some (Tensor (mat11 1)), attr_upper = Some (Tensor (mat11 3))\<rparr>,
        \<lparr>attr_lower = Some (Tensor (mat11 5)), attr_upper = Some (Tensor (mat11 6))\<rparr>]"
proof -
  let ?A = "\<lparr>attr_lower = Some (Tensor (mat11 1)), attr_upper = Some (Tensor (mat11 3))\<rparr>"
  let ?B = "\<lparr>attr_lower = Some (Tensor (mat11 5)), attr_upper = Some (Tensor (mat11 6))\<rparr>"
  let ?C = "\<lparr>attr_lower = Some (Tuple [mat11 1, mat11 5]),
             attr_upper = Some (Tuple [mat11 3, mat11 6])\<rparr>"
  let ?D = "\<lparr>attr_lower = Some (Tensor (mat11 (- 6))), attr_upper = Some (Tensor (mat11 (- 2)))\<rparr>"
  let ?va = "\<lparr>lower = Tensor (mat11 1), upper = Tensor (mat11 3)\<rparr>"
  let ?vb = "\<lparr>lower = Tensor (mat11 5), upper = Tensor (mat11 6)\<rparr>"
  let ?wr = "LinearFCWrapper \<lparr>lin_w = mat11 (- 2), lin_has_bias = False, lin_b = vec1 0\<rparr>"
  have oa: "object_value [?A, ?B] 0 = Some ?va" and ob: "object_value [?A, ?B] 1 = Some ?vb"
    by (simp_all add: object_value_def)
  have lin: "propagate_through IntervalBounds_class ?va ?wr
      = Inr \<lparr>lower = Tensor (mat11 (- 6)), upper = Tensor (mat11 (- 2))\<rparr>"
    by (simp add: propagate_through_def call_linear_def IntervalBounds_class_def
        IntervalBounds_linear_def ensure_singleton_def tadd_def tsub_def tbin_def
        broadcast_shape_def bcast_def matmul_def tab_def thalf_def tmap_def tabs_def
        add_bias_def center_radius_def el_def mat11_def)
  have cmb: "combine_with ?va (Interval ?vb)
      = Inr \<lparr>lower = Tuple [mat11 1, mat11 5], upper = Tuple [mat11 3, mat11 6]\<rparr>"
    by (simp add: combine_with_def ensure_singleton_def)
  have p: "propagate_through_prog 0 ?wr [?A, ?B] = (Inr 2, [?A, ?B, ?D])"
    using no_mutation[where h = "[?A, ?B]" and self = 0 and v = ?va and wrapper = ?wr,
        THEN conjunct2, THEN conjunct2, THEN conjunct1] oa
    by (simp add: lin stored_def)
  have c: "combine_with_prog 0 (Ref 1) [?A, ?B] = (Inr 2, [?A, ?B, ?C])"
    using no_mutation[where h = "[?A, ?B]" and self = 0 and v = ?va and other = 1
        and ov = ?vb, THEN conjunct2, THEN conjunct2, THEN conjunct2] oa ob
    by (simp add: cmb stored_def)
  have t: "take 2 [?A, ?B, ?C] = [?A, ?B]"
    using no_mutation[where h = "[?A, ?B]" and self = 0 and bounds = "Ref 1"
        and r = "Inr 2" and h' = "[?A, ?B, ?C]", THEN conjunct2, THEN conjunct1] c
    by simp
  show ?thesis using oa ob p c t by simp
qed



end
